theory Spec2Isabelle
  imports Complex_Main
begin

section \<open>Tensors and the tensor operations used by psanet.py\<close>

text \<open>
  A tensor is a shape together with a row-major (contiguous) storage, indexed by flat
  offset. Elements are real numbers: rounding of floating-point arithmetic is not part
  of this development. Every operation that can raise in the source returns a sum, with
  \<open>Inl\<close> carrying the error.
\<close>

datatype mode = Training | Inference

datatype error =
    RankError "nat list"
  | ChannelMismatch nat nat
  | KernelTooLarge
  | ViewAmbiguous
  | ViewInvalid
  | DimOutOfRange
  | BmmShapeMismatch "nat list" "nat list"
  | CatShapeMismatch "nat list" "nat list"
  | InterpolateEmpty
  | UnknownBackbone string
  | AttributeError
  | EmptyWeight

record tensor =
  shape :: "nat list"
  storage :: "nat \<Rightarrow> real"

definition numel :: "tensor \<Rightarrow> nat" where
  "numel t = prod_list (shape t)"

text \<open>Row-major element access for tensors of rank 3 and 4.\<close>

definition at3 :: "tensor \<Rightarrow> nat \<Rightarrow> nat \<Rightarrow> nat \<Rightarrow> real" where
  "at3 t b i j = storage t ((b * (shape t ! 1) + i) * (shape t ! 2) + j)"

definition at4 :: "tensor \<Rightarrow> nat \<Rightarrow> nat \<Rightarrow> nat \<Rightarrow> nat \<Rightarrow> real" where
  "at4 t b c y x =
     storage t (((b * (shape t ! 1) + c) * (shape t ! 2) + y) * (shape t ! 3) + x)"

definition bindE :: "error + 'a \<Rightarrow> ('a \<Rightarrow> error + 'b) \<Rightarrow> error + 'b" where
  "bindE r f = (case r of Inl e \<Rightarrow> Inl e | Inr v \<Rightarrow> f v)"

text \<open>\<open>n, c, h, w = t.size()\<close>: unpacking raises unless the rank is 4.\<close>

definition unpack4 :: "nat list \<Rightarrow> error + (nat \<times> nat \<times> nat \<times> nat)" where
  "unpack4 s = (case s of [n, c, h, w] \<Rightarrow> Inr (n, c, h, w) | _ \<Rightarrow> Inl (RankError s))"

text \<open>
  \<open>t.view(d1, ..., dk, -1)\<close>: the last dimension is inferred. The inference raises when
  the product of the given dimensions is zero, or does not divide the element count.
\<close>

definition view_infer :: "tensor \<Rightarrow> nat list \<Rightarrow> error + tensor" where
  "view_infer t dims =
     (let newsize = prod_list dims in
      if newsize = 0 then Inl (if numel t = 0 then ViewAmbiguous else ViewInvalid)
      else if numel t mod newsize \<noteq> 0 then Inl ViewInvalid
      else Inr \<lparr>shape = dims @ [numel t div newsize], storage = storage t\<rparr>)"

text \<open>\<open>t.view(d1, ..., dk)\<close> with every dimension given: same storage, new shape.\<close>

definition view :: "tensor \<Rightarrow> nat list \<Rightarrow> error + tensor" where
  "view t dims =
     (if numel t = prod_list dims then Inr \<lparr>shape = dims, storage = storage t\<rparr>
      else Inl ViewInvalid)"

text \<open>
  \<open>torch.softmax(t, dim=1)\<close>: for a shape \<open>n # c # rest\<close> the exponentials are normalised
  over the index of dimension 1, the batch index and the trailing indices held fixed.
\<close>

definition softmax_dim1 :: "tensor \<Rightarrow> error + tensor" where
  "softmax_dim1 t =
     (case shape t of
        n # c # rest \<Rightarrow>
          (let m = prod_list rest in
           Inr \<lparr>shape = shape t,
                storage = (\<lambda>off. exp (storage t off) /
                  (\<Sum>k<c. exp (storage t ((off div (c * m)) * (c * m) + k * m + off mod m))))\<rparr>)
      | s \<Rightarrow> Inl DimOutOfRange)"

text \<open>
  \<open>torch.bmm(a, b)\<close>: both operands have rank 3, the batch sizes agree and the columns of
  \<open>a\<close> equal the rows of \<open>b\<close>; anything else raises.
\<close>

definition bmm :: "tensor \<Rightarrow> tensor \<Rightarrow> error + tensor" where
  "bmm a b =
     (case shape a of
        [ba, n, m] \<Rightarrow>
          (case shape b of
             [bb, m', p] \<Rightarrow>
               if ba = bb \<and> m = m' then
                 Inr \<lparr>shape = [ba, n, p],
                      storage = (\<lambda>off. \<Sum>k<m.
                         storage a ((off div (n * p) * n + (off div p) mod n) * m + k) *
                         storage b ((off div (n * p) * m + k) * p + off mod p))\<rparr>
               else Inl (BmmShapeMismatch (shape a) (shape b))
           | s \<Rightarrow> Inl (RankError s))
      | s \<Rightarrow> Inl (RankError s))"

text \<open>
  \<open>torch.cat([x, y], dim=1)\<close>: the shapes agree in every dimension but dimension 1.
\<close>

definition cat_dim1 :: "tensor \<Rightarrow> tensor \<Rightarrow> error + tensor" where
  "cat_dim1 x y =
     (case shape x of
        n # c1 # rest \<Rightarrow>
          (case shape y of
             n' # c2 # rest' \<Rightarrow>
               if n = n' \<and> rest = rest' then
                 (let inner = prod_list rest; blk = (c1 + c2) * inner in
                  Inr \<lparr>shape = n # (c1 + c2) # rest,
                       storage = (\<lambda>off.
                         if off mod blk < c1 * inner
                         then storage x (off div blk * (c1 * inner) + off mod blk)
                         else storage y (off div blk * (c2 * inner) + (off mod blk - c1 * inner)))\<rparr>)
               else Inl (CatShapeMismatch (shape x) (shape y))
           | s \<Rightarrow> Inl (CatShapeMismatch (shape x) s))
      | s \<Rightarrow> Inl (DimOutOfRange))"

text \<open>
  \<open>nn.Dropout2d(p)\<close>: the identity in inference mode. In training mode a whole channel
  of a sample is zeroed where the drawn mask says so, and the kept channels are scaled
  by \<open>1 / (1 - p)\<close>. The mask is the randomness of the call, indexed by \<open>b * C + c\<close>.
\<close>

definition Dropout2d :: "real \<Rightarrow> mode \<Rightarrow> (nat \<Rightarrow> bool) \<Rightarrow> tensor \<Rightarrow> error + tensor" where
  "Dropout2d p m keep x =
     (case m of
        Inference \<Rightarrow> Inr x
      | Training \<Rightarrow>
          (case shape x of
             [n, c, h, w] \<Rightarrow>
               Inr \<lparr>shape = shape x,
                    storage = (\<lambda>off. if keep (off div (h * w))
                                      then storage x off / (1 - p) else 0)\<rparr>
           | s \<Rightarrow> Inl (RankError s)))"

text \<open>
  \<open>F.interpolate(x, size, mode='bilinear', align_corners=True)\<close>. With aligned corners the
  source coordinate of output index \<open>oi\<close> is \<open>oi * (insz - 1) / (outsz - 1)\<close> (and 0 when the
  output has one element); the value is the bilinear blend of the four neighbours.
\<close>

definition src_lo :: "nat \<Rightarrow> nat \<Rightarrow> nat \<Rightarrow> nat" where
  "src_lo insz outsz oi = (if outsz > 1 then (oi * (insz - 1)) div (outsz - 1) else 0)"

definition src_hi :: "nat \<Rightarrow> nat \<Rightarrow> nat \<Rightarrow> nat" where
  "src_hi insz outsz oi =
     (if src_lo insz outsz oi < insz - 1 then src_lo insz outsz oi + 1 else src_lo insz outsz oi)"

definition src_frac :: "nat \<Rightarrow> nat \<Rightarrow> nat \<Rightarrow> real" where
  "src_frac insz outsz oi =
     (if outsz > 1
      then real (oi * (insz - 1)) / real (outsz - 1) - real (src_lo insz outsz oi)
      else 0)"

definition interpolate_bilinear :: "tensor \<Rightarrow> nat list \<Rightarrow> error + tensor" where
  "interpolate_bilinear x sz =
     (case shape x of
        [n, c, hin, win] \<Rightarrow>
          (case sz of
             [hout, wout] \<Rightarrow>
               if c = 0 \<or> hin = 0 \<or> win = 0 \<or> hout = 0 \<or> wout = 0 then Inl InterpolateEmpty
               else
                 Inr \<lparr>shape = [n, c, hout, wout],
                      storage = (\<lambda>off.
                        let ox = off mod wout; oy = (off div wout) mod hout;
                            pl = off div (hout * wout);
                            y0 = src_lo hin hout oy; y1 = src_hi hin hout oy;
                            x0 = src_lo win wout ox; x1 = src_hi win wout ox;
                            ly = src_frac hin hout oy; lx = src_frac win wout ox;
                            v = (\<lambda>yy xx. storage x ((pl * hin + yy) * win + xx))
                        in (1 - ly) * ((1 - lx) * v y0 x0 + lx * v y0 x1)
                           + ly * ((1 - lx) * v y1 x0 + lx * v y1 x1))\<rparr>
           | s \<Rightarrow> Inl (RankError s))
      | s \<Rightarrow> Inl (RankError s))"

text \<open>
  Bilinear interpolation with aligned corners as it is defined mathematically, without
  reference to the computation above: the input plane is extended to real coordinates by
  the tent (hat) function in each direction, and output index \<open>oi\<close> of a side of \<open>outsz\<close>
  points samples the coordinate \<open>oi * (insz - 1) / (outsz - 1)\<close>, so that the first and the
  last output points fall on the first and the last input points.
\<close>

definition tent :: "real \<Rightarrow> real" where
  "tent t = max 0 (1 - \<bar>t\<bar>)"

definition aligned_coord :: "nat \<Rightarrow> nat \<Rightarrow> nat \<Rightarrow> real" where
  "aligned_coord insz outsz oi =
     (if outsz > 1 then real oi * real (insz - 1) / real (outsz - 1) else 0)"

definition spec_bilinear :: "tensor \<Rightarrow> nat \<Rightarrow> nat \<Rightarrow> nat \<Rightarrow> nat \<Rightarrow> nat \<Rightarrow> nat \<Rightarrow> real" where
  "spec_bilinear t hout wout b ch oy ox =
     (\<Sum>i<shape t ! 2. \<Sum>j<shape t ! 3.
        at4 t b ch i j
          * tent (aligned_coord (shape t ! 2) hout oy - real i)
          * tent (aligned_coord (shape t ! 3) wout ox - real j))"

section \<open>Layers with learned weights\<close>

text \<open>
  Every layer instance created by a constructor owns one slot of the parameter store,
  named by a natural number. The store maps a slot to the function the layer's learned
  weights compute in the given mode: from the input tensor to the output storage. The
  constructors allocate slots from a counter that is threaded through them.
\<close>

type_synonym weights = "nat \<Rightarrow> mode \<Rightarrow> tensor \<Rightarrow> nat \<Rightarrow> real"

record conv_layer =
  in_channels :: nat
  out_channels :: nat
  kernel_size :: nat
  padding :: nat
  slot :: nat

text \<open>
  Output shape of a stride-1 two-dimensional convolution, or the error it raises. The
  checks run in this order: the rank of the input, a weight with at least one output
  channel, the input's channel count, the kernel against the padded input size.
\<close>

definition conv_shape :: "conv_layer \<Rightarrow> nat list \<Rightarrow> error + nat list" where
  "conv_shape L s =
     (case s of
        [n, c, h, w] \<Rightarrow>
          if out_channels L = 0 then Inl EmptyWeight
          else if c \<noteq> in_channels L then Inl (ChannelMismatch (in_channels L) c)
          else if h + 2 * padding L < kernel_size L \<or> w + 2 * padding L < kernel_size L
          then Inl KernelTooLarge
          else Inr [n, out_channels L,
                    h + 2 * padding L + 1 - kernel_size L,
                    w + 2 * padding L + 1 - kernel_size L]
      | _ \<Rightarrow> Inl (RankError s))"

definition Conv2d_init :: "nat \<Rightarrow> nat \<Rightarrow> nat \<Rightarrow> nat \<Rightarrow> nat \<Rightarrow> conv_layer \<times> nat" where
  "Conv2d_init cin cout k pad next =
     (\<lparr>in_channels = cin, out_channels = cout, kernel_size = k, padding = pad, slot = next\<rparr>,
      Suc next)"

definition Conv2d_forward :: "weights \<Rightarrow> mode \<Rightarrow> conv_layer \<Rightarrow> tensor \<Rightarrow> error + tensor" where
  "Conv2d_forward W m L x =
     bindE (conv_shape L (shape x)) (\<lambda>s. Inr \<lparr>shape = s, storage = W (slot L) m x\<rparr>)"

text \<open>
  Modelled from the spec: \<open>_ConvBNReLU\<close> (da_basenets/basic.py) is not among the sources.
  The spec describes it as convolution + normalization + activation: the shape rule is
  the convolution's (stride 1, as for \<open>nn.Conv2d\<close> above), the learned convolution and
  normalization are the slot's function, and the activation clamps every element at zero
  from below.
\<close>

definition ConvBNReLU_init :: "nat \<Rightarrow> nat \<Rightarrow> nat \<Rightarrow> nat \<Rightarrow> nat \<Rightarrow> conv_layer \<times> nat" where
  "ConvBNReLU_init cin cout k pad next =
     (\<lparr>in_channels = cin, out_channels = cout, kernel_size = k, padding = pad, slot = next\<rparr>,
      Suc next)"

definition ConvBNReLU_forward :: "weights \<Rightarrow> mode \<Rightarrow> conv_layer \<Rightarrow> tensor \<Rightarrow> error + tensor" where
  "ConvBNReLU_forward W m L x =
     bindE (conv_shape L (shape x))
       (\<lambda>s. Inr \<lparr>shape = s, storage = (\<lambda>off. max 0 (W (slot L) m x off))\<rparr>)"

section \<open>_AttentionGeneration\<close>

record AttentionGeneration =
  conv_reduce :: conv_layer
  attention0 :: conv_layer
  attention1 :: conv_layer
  reduced_channels :: nat

definition AttentionGeneration_init ::
  "nat \<Rightarrow> nat \<Rightarrow> nat \<Rightarrow> nat \<Rightarrow> AttentionGeneration \<times> nat" where
  "AttentionGeneration_init cin red cout next =
     (let (cr, n1) = ConvBNReLU_init cin red 1 0 next;
          (a0, n2) = ConvBNReLU_init red red 1 0 n1;
          (a1, n3) = Conv2d_init red cout 1 0 n2
      in (\<lparr>conv_reduce = cr, attention0 = a0, attention1 = a1, reduced_channels = red\<rparr>, n3))"

text \<open>\<open>self.attention\<close>, the sequential stack of the two attention convolutions.\<close>

definition attention_stack ::
  "weights \<Rightarrow> mode \<Rightarrow> AttentionGeneration \<Rightarrow> tensor \<Rightarrow> error + tensor" where
  "attention_stack W m ag x =
     bindE (ConvBNReLU_forward W m (attention0 ag) x) (Conv2d_forward W m (attention1 ag))"

text \<open>
  Lines 108 to 113 of the source up to the operands of \<open>torch.bmm\<close>: the flattened reduced
  feature map and the softmax of the flattened attention tensor, with the \<open>n\<close>, \<open>h\<close> and
  \<open>w\<close> read from \<open>attention.size()\<close>.
\<close>

definition AttentionGeneration_operands ::
  "weights \<Rightarrow> mode \<Rightarrow> AttentionGeneration \<Rightarrow> tensor
     \<Rightarrow> error + (tensor \<times> tensor \<times> nat \<times> nat \<times> nat)" where
  "AttentionGeneration_operands W m ag x =
     bindE (ConvBNReLU_forward W m (conv_reduce ag) x) (\<lambda>reduce_x.
     bindE (attention_stack W m ag reduce_x) (\<lambda>attention.
     bindE (unpack4 (shape attention)) (\<lambda>(n, c, h, w).
     bindE (view_infer attention [n, c]) (\<lambda>attention_flat.
     bindE (view_infer reduce_x [n, reduced_channels ag]) (\<lambda>reduce_flat.
     bindE (softmax_dim1 attention_flat) (\<lambda>sm.
       Inr (reduce_flat, sm, n, h, w)))))))"

definition AttentionGeneration_forward ::
  "weights \<Rightarrow> mode \<Rightarrow> AttentionGeneration \<Rightarrow> tensor \<Rightarrow> error + tensor" where
  "AttentionGeneration_forward W m ag x =
     bindE (AttentionGeneration_operands W m ag x) (\<lambda>(reduce_flat, sm, n, h, w).
     bindE (bmm reduce_flat sm) (\<lambda>fm.
       view fm [n, reduced_channels ag, h, w]))"

text \<open>The parameter slots an attention module owns.\<close>

definition AttentionGeneration_slots :: "AttentionGeneration \<Rightarrow> nat set" where
  "AttentionGeneration_slots ag =
     {slot (conv_reduce ag), slot (attention0 ag), slot (attention1 ag)}"

text \<open>
  The weighted feature map as section 4.1 of the specification words it, on mathematical
  indices rather than flat storage: (c) flattening the spatial dimensions sends position
  \<open>p\<close> to row \<open>p div w\<close> and column \<open>p mod w\<close>; (d) the softmax normalises the attention
  over its channel axis; (e) the batched product of the reduced features
  (reduced_channels x positions) with the normalised attention (positions x positions);
  (f) reshaping back reads position \<open>y * w + x\<close>.
\<close>

definition spec_flatten :: "tensor \<Rightarrow> nat \<Rightarrow> nat \<Rightarrow> nat \<Rightarrow> real" where
  "spec_flatten t b c p = at4 t b c (p div (shape t ! 3)) (p mod (shape t ! 3))"

definition spec_softmax ::
  "(nat \<Rightarrow> nat \<Rightarrow> nat \<Rightarrow> real) \<Rightarrow> nat \<Rightarrow> nat \<Rightarrow> nat \<Rightarrow> nat \<Rightarrow> real" where
  "spec_softmax A np b i p = exp (A b i p) / (\<Sum>k<np. exp (A b k p))"

definition spec_bmm ::
  "(nat \<Rightarrow> nat \<Rightarrow> nat \<Rightarrow> real) \<Rightarrow> (nat \<Rightarrow> nat \<Rightarrow> nat \<Rightarrow> real) \<Rightarrow> nat \<Rightarrow> nat \<Rightarrow> nat \<Rightarrow> nat \<Rightarrow> real" where
  "spec_bmm R S np b r p = (\<Sum>i<np. R b r i * S b i p)"

definition spec_weighted_feature :: "tensor \<Rightarrow> tensor \<Rightarrow> nat \<Rightarrow> nat \<Rightarrow> nat \<Rightarrow> nat \<Rightarrow> real" where
  "spec_weighted_feature reduce_x attention b r y x =
     (let h = shape reduce_x ! 2; w = shape reduce_x ! 3; np = h * w in
      spec_bmm (spec_flatten reduce_x) (spec_softmax (spec_flatten attention) np) np
        b r (y * w + x))"

section \<open>_PointwiseSpatialAttention\<close>

record PointwiseSpatialAttention =
  collect_attention :: AttentionGeneration
  distribute_attention :: AttentionGeneration

definition PointwiseSpatialAttention_init ::
  "nat \<Rightarrow> nat \<Rightarrow> nat \<Rightarrow> PointwiseSpatialAttention \<times> nat" where
  "PointwiseSpatialAttention_init cin cout next =
     (let red = 512;
          (ca, n1) = AttentionGeneration_init cin red cout next;
          (da, n2) = AttentionGeneration_init cin red cout n1
      in (\<lparr>collect_attention = ca, distribute_attention = da\<rparr>, n2))"

definition PointwiseSpatialAttention_forward ::
  "weights \<Rightarrow> mode \<Rightarrow> PointwiseSpatialAttention \<Rightarrow> tensor \<Rightarrow> error + tensor" where
  "PointwiseSpatialAttention_forward W m P x =
     bindE (AttentionGeneration_forward W m (collect_attention P) x) (\<lambda>collect_fm.
     bindE (AttentionGeneration_forward W m (distribute_attention P) x) (\<lambda>distribute_fm.
       cat_dim1 collect_fm distribute_fm))"

section \<open>_PSAHead\<close>

record PSAHead =
  psa :: PointwiseSpatialAttention
  conv_post :: conv_layer
  project0 :: conv_layer
  project1_p :: real
  project2 :: conv_layer

definition PSAHead_init :: "nat \<Rightarrow> nat \<Rightarrow> PSAHead \<times> nat" where
  "PSAHead_init nclass next =
     (let (ps, n1) = PointwiseSpatialAttention_init 2048 3600 next;
          (cp, n2) = ConvBNReLU_init 1024 2048 1 0 n1;
          (p0, n3) = ConvBNReLU_init 4096 512 3 1 n2;
          (p2, n4) = Conv2d_init 512 nclass 1 0 n3
      in (\<lparr>psa = ps, conv_post = cp, project0 = p0, project1_p = 1 / 10, project2 = p2\<rparr>, n4))"

text \<open>\<open>self.project\<close>: convolution block, channel dropout, 1x1 convolution.\<close>

definition PSAHead_project ::
  "weights \<Rightarrow> mode \<Rightarrow> (nat \<Rightarrow> bool) \<Rightarrow> PSAHead \<Rightarrow> tensor \<Rightarrow> error + tensor" where
  "PSAHead_project W m keep H x =
     bindE (ConvBNReLU_forward W m (project0 H) x) (\<lambda>y.
     bindE (Dropout2d (project1_p H) m keep y) (\<lambda>z.
       Conv2d_forward W m (project2 H) z))"

definition PSAHead_forward ::
  "weights \<Rightarrow> mode \<Rightarrow> (nat \<Rightarrow> bool) \<Rightarrow> PSAHead \<Rightarrow> tensor \<Rightarrow> error + tensor" where
  "PSAHead_forward W m keep H x =
     bindE (PointwiseSpatialAttention_forward W m (psa H) x) (\<lambda>global_feature.
     bindE (ConvBNReLU_forward W m (conv_post H) global_feature) (\<lambda>out.
     bindE (cat_dim1 x out) (\<lambda>out'.
       PSAHead_project W m keep H out')))"

section \<open>The auxiliary head and the backbone\<close>

text \<open>
  Modelled from the spec: \<open>_FCNHead\<close> (da_basenets/fcn.py) is not among the sources. The
  spec calls it the auxiliary head, external to this file, applied to the feature map c3
  and producing, after upsampling, a tensor of shape (N, nclass, H, W): it maps
  \<open>in_channels\<close> channels to \<open>nclass\<close> channels at the same spatial size, by a learned
  function.
\<close>

record FCNHead =
  fcn_in_channels :: nat
  fcn_channels :: nat
  fcn_slot :: nat

definition FCNHead_init :: "nat \<Rightarrow> nat \<Rightarrow> nat \<Rightarrow> FCNHead \<times> nat" where
  "FCNHead_init cin nclass next =
     (\<lparr>fcn_in_channels = cin, fcn_channels = nclass, fcn_slot = next\<rparr>, Suc next)"

definition FCNHead_forward :: "weights \<Rightarrow> mode \<Rightarrow> FCNHead \<Rightarrow> tensor \<Rightarrow> error + tensor" where
  "FCNHead_forward W m L x =
     (case shape x of
        [n, c, h, w] \<Rightarrow>
          if c \<noteq> fcn_in_channels L then Inl (ChannelMismatch (fcn_in_channels L) c)
          else Inr \<lparr>shape = [n, fcn_channels L, h, w], storage = W (fcn_slot L) m x\<rparr>
      | s \<Rightarrow> Inl (RankError s))"

text \<open>
  Modelled from the spec: \<open>SegBaseModel\<close> (da_basenets/segbase.py) is not among the sources.
  The spec treats the backbone as a black box selected by a string among resnet50,
  resnet101 and resnet152, taking an input of shape (N, 3, H, W) and producing the
  feature maps c3 (the input of the 1024-channel auxiliary head) and c4 (2048 channels),
  a 60 x 60 grid for a 480 x 480 input: stride 8. The two further components of the
  tuple that the caller discards are left out. The constructor also stores \<open>nclass\<close> and
  \<open>aux\<close>, which \<open>PSANet_init\<close> below writes into the record. For sizes that are not multiples of the
  stride the spec gives no rule; the quotient is used and no result below rests on it.
\<close>

definition backbone_stride :: nat where
  "backbone_stride = 8"

definition SegBaseModel_init :: "string \<Rightarrow> nat \<Rightarrow> error + (nat \<times> nat)" where
  "SegBaseModel_init backbone next =
     (if backbone = ''resnet50'' \<or> backbone = ''resnet101'' \<or> backbone = ''resnet152''
      then Inr (next, next + 2)
      else Inl (UnknownBackbone backbone))"

definition base_forward :: "weights \<Rightarrow> mode \<Rightarrow> nat \<Rightarrow> tensor \<Rightarrow> error + (tensor \<times> tensor)" where
  "base_forward W m pre x =
     (case shape x of
        [n, c, h, w] \<Rightarrow>
          if c \<noteq> 3 then Inl (ChannelMismatch 3 c)
          else Inr (\<lparr>shape = [n, 1024, h div backbone_stride, w div backbone_stride],
                     storage = W pre m x\<rparr>,
                    \<lparr>shape = [n, 2048, h div backbone_stride, w div backbone_stride],
                     storage = W (Suc pre) m x\<rparr>)
      | s \<Rightarrow> Inl (RankError s))"

section \<open>PSANet\<close>

record PSANet =
  nclass :: nat
  aux :: bool
  pretrained :: nat
  head :: PSAHead
  auxlayer :: "FCNHead option"
  exclusive :: "string list"

definition PSANet_init :: "nat \<Rightarrow> string \<Rightarrow> bool \<Rightarrow> nat \<Rightarrow> error + (PSANet \<times> nat)" where
  "PSANet_init ncls backbone ax next =
     bindE (SegBaseModel_init backbone next) (\<lambda>(pre, n1).
       let (H, n2) = PSAHead_init ncls n1 in
       if ax then
         (let (al, n3) = FCNHead_init 1024 ncls n2 in
          Inr (\<lparr>nclass = ncls, aux = ax, pretrained = pre, head = H, auxlayer = Some al,
                exclusive = [''head'', ''auxlayer'']\<rparr>, n3))
       else
         Inr (\<lparr>nclass = ncls, aux = ax, pretrained = pre, head = H, auxlayer = None,
               exclusive = [''head'']\<rparr>, n2))"

text \<open>What \<open>forward\<close> returns: one tensor, or the tuple built from the list \<open>outputs\<close>.\<close>

datatype pyvalue = Tensor tensor | Tuple "tensor list"

definition PSANet_forward ::
  "weights \<Rightarrow> mode \<Rightarrow> (nat \<Rightarrow> bool) \<Rightarrow> PSANet \<Rightarrow> tensor \<Rightarrow> error + pyvalue" where
  "PSANet_forward W m keep net x =
     (let sz = drop 2 (shape x) in
      bindE (base_forward W m (pretrained net) x) (\<lambda>(c3, c4).
      bindE (PSAHead_forward W m keep (head net) c4) (\<lambda>y.
      bindE (interpolate_bilinear y sz) (\<lambda>y'.
        let outputs = [] @ [y'] in
        if aux net then
          (case auxlayer net of
             None \<Rightarrow> Inl AttributeError
           | Some al \<Rightarrow>
               bindE (FCNHead_forward W m al c3) (\<lambda>auxout.
               bindE (interpolate_bilinear auxout sz) (\<lambda>auxout'.
                 Inr (Tuple (outputs @ [auxout'])))))
        else Inr (Tensor (outputs ! 0))))))"

text \<open>The primary output: the tensor itself, or the first component of the tuple.\<close>

definition primary :: "pyvalue \<Rightarrow> tensor option" where
  "primary r = (case r of Tensor t \<Rightarrow> Some t | Tuple ts \<Rightarrow> (case ts of [] \<Rightarrow> None | t # _ \<Rightarrow> Some t))"

text \<open>
  The factory functions. The flag \<open>aux\<close> reaches the constructor through the keyword
  arguments; whether pretrained weights are loaded decides the parameter store, which
  is a parameter of \<open>forward\<close> here. Slots are allocated from 0.
\<close>

definition get_psanet :: "nat \<Rightarrow> string \<Rightarrow> bool \<Rightarrow> error + PSANet" where
  "get_psanet num_classes backbone ax =
     bindE (PSANet_init num_classes backbone ax 0) (\<lambda>(model, _). Inr model)"

definition get_psanet_resnet50 :: "nat \<Rightarrow> bool \<Rightarrow> error + PSANet" where
  "get_psanet_resnet50 num_classes ax = get_psanet num_classes ''resnet50'' ax"

definition get_psanet_resnet101 :: "nat \<Rightarrow> bool \<Rightarrow> error + PSANet" where
  "get_psanet_resnet101 num_classes ax = get_psanet num_classes ''resnet101'' ax"

definition get_psanet_resnet152 :: "nat \<Rightarrow> bool \<Rightarrow> error + PSANet" where
  "get_psanet_resnet152 num_classes ax = get_psanet num_classes ''resnet152'' ax"

text \<open>\<open>output = model(img)\<close> on the result of a factory function, as in the script at the end.\<close>

definition model_call ::
  "error + PSANet \<Rightarrow> weights \<Rightarrow> mode \<Rightarrow> (nat \<Rightarrow> bool) \<Rightarrow> tensor \<Rightarrow> error + pyvalue" where
  "model_call model W m keep img = bindE model (\<lambda>net. PSANet_forward W m keep net img)"

text \<open>Concrete data for the worked instances: zero weights, zero tensors, a mask that keeps all.\<close>

definition zero_weights :: weights where
  "zero_weights = (\<lambda>s m x off. 0)"

definition zeros :: "nat list \<Rightarrow> tensor" where
  "zeros sh = \<lparr>shape = sh, storage = (\<lambda>off. 0)\<rparr>"

definition keep_all :: "nat \<Rightarrow> bool" where
  "keep_all = (\<lambda>i. True)"

section \<open>Properties of the tensor operations\<close>


lemma bindE_Inr_iff: "bindE r f = Inr v \<longleftrightarrow> (\<exists>u. r = Inr u \<and> f u = Inr v)"
  by (cases r) (simp_all add: bindE_def)

lemma off_div_block: "i < c \<Longrightarrow> j < m \<Longrightarrow> ((b * c + i) * m + j) div (c * m) = (b::nat)"
proof -
  assume a: "i < c" "j < m"
  have "i * m + j < c * m"
  proof -
    have "i * m + j < i * m + m" using a by simp
    also have "\<dots> = (Suc i) * m" by simp
    also have "\<dots> \<le> c * m" using a by (intro mult_le_mono1) simp
    finally show ?thesis .
  qed
  then have lt: "i * m + j < c * m" .
  have nz: "c * m \<noteq> 0" using a by auto
  have "(b * (c * m) + (i * m + j)) div (c * m) = b + (i * m + j) div (c * m)"
    using nz by (rule div_mult_self3)
  with lt have "(b * (c * m) + (i * m + j)) div (c * m) = b" by simp
  moreover have "(b * c + i) * m + j = b * (c * m) + (i * m + j)" by (simp add: algebra_simps)
  ultimately show ?thesis by (simp only:)
qed

lemma conv_shape_Inr:
  "conv_shape L s = Inr s' \<Longrightarrow>
     \<exists>n h w. s = [n, in_channels L, h, w] \<and> 0 < out_channels L \<and>
       kernel_size L \<le> h + 2 * padding L \<and>
       kernel_size L \<le> w + 2 * padding L \<and>
       s' = [n, out_channels L, h + 2 * padding L + 1 - kernel_size L,
             w + 2 * padding L + 1 - kernel_size L]"
  by (auto simp: conv_shape_def split: list.splits if_splits)

lemma softmax_dim1_rank3:
  "shape t = [n, c, p] \<Longrightarrow>
   softmax_dim1 t = Inr \<lparr>shape = [n, c, p],
      storage = (\<lambda>off. exp (storage t off) /
         (\<Sum>k<c. exp (storage t ((off div (c * p)) * (c * p) + k * p + off mod p))))\<rparr>"
  by (simp add: softmax_dim1_def)

lemma softmax_element:
  assumes "shape t = [n, c, p]" "softmax_dim1 t = Inr sm" "i < c" "j < p"
  shows "shape sm = [n, c, p] \<and> at3 sm b i j = exp (at3 t b i j) / (\<Sum>k<c. exp (at3 t b k j))"
proof -
  have sm: "sm = \<lparr>shape = [n, c, p],
      storage = (\<lambda>off. exp (storage t off) /
         (\<Sum>k<c. exp (storage t ((off div (c * p)) * (c * p) + k * p + off mod p))))\<rparr>"
    using assms(1,2) by (simp add: softmax_dim1_rank3)
  have d: "((b * c + i) * p + j) div (c * p) = b" using assms(3,4) by (rule off_div_block)
  have m: "((b * c + i) * p + j) mod p = j" using assms(4) by simp
  have "b * (c * p) + k * p + j = (b * c + k) * p + j" for k by (simp add: algebra_simps)
  then show ?thesis using assms(4) by (simp add: sm at3_def assms(1) d m)
qed

lemma softmax_column_sum:
  assumes "shape t = [n, c, p]" "softmax_dim1 t = Inr sm" "0 < c" "j < p"
  shows "(\<Sum>i<c. at3 sm b i j) = 1"
proof -
  let ?Z = "\<Sum>k<c. exp (at3 t b k j)"
  have Zpos: "0 < ?Z"
    by (rule sum_pos) (use assms(3) in auto)
  have "(\<Sum>i<c. at3 sm b i j) = (\<Sum>i<c. exp (at3 t b i j) / ?Z)"
    by (rule sum.cong) (use softmax_element [OF assms(1,2) _ assms(4)] in simp_all)
  also have "\<dots> = ?Z / ?Z" by (simp only: sum_divide_distrib [symmetric])
  also have "\<dots> = 1" using Zpos by simp
  finally show ?thesis .
qed

lemma view_infer_Inr:
  "view_infer t dims = Inr t' \<Longrightarrow>
     0 < prod_list dims \<and> numel t mod prod_list dims = 0 \<and>
     t' = \<lparr>shape = dims @ [numel t div prod_list dims], storage = storage t\<rparr>"
  by (auto simp: view_infer_def Let_def split: if_splits)

lemma bmm_element:
  assumes "shape a = [n, r, c]" "shape s = [n, c, p]" "bmm a s = Inr fm" "i < r" "j < p"
  shows "shape fm = [n, r, p] \<and> at3 fm b i j = (\<Sum>k<c. at3 a b i k * at3 s b k j)"
proof -
  have fm: "fm = \<lparr>shape = [n, r, p],
                      storage = (\<lambda>off. \<Sum>k<c.
                         storage a ((off div (r * p) * r + (off div p) mod r) * c + k) *
                         storage s ((off div (r * p) * c + k) * p + off mod p))\<rparr>"
    using assms(1,2,3) by (simp add: bmm_def)
  have d: "((b * r + i) * p + j) div (r * p) = b" using assms(4,5) by (rule off_div_block)
  have d2: "((b * r + i) * p + j) div p = b * r + i" using assms(5) by simp
  have m: "((b * r + i) * p + j) mod p = j" using assms(5) by simp
  show ?thesis using assms(4,5) by (simp add: fm at3_def assms(1,2) d d2 m)
qed

lemma numel_rank4: "shape t = [n, c, h, w] \<Longrightarrow> numel t = (n * c) * (h * w)"
  by (simp add: numel_def)

lemma view_infer_rank4:
  assumes "shape t = [n, c, h, w]" "view_infer t [n, c] = Inr t'"
  shows "0 < n \<and> 0 < c \<and> t' = \<lparr>shape = [n, c, h * w], storage = storage t\<rparr>"
proof -
  from view_infer_Inr [OF assms(2)]
  have pos: "0 < n * c" and t': "t' = \<lparr>shape = [n, c] @ [numel t div prod_list [n, c]], storage = storage t\<rparr>"
    by simp_all
  have "numel t div prod_list [n, c] = h * w"
    using pos by (simp add: numel_rank4 [OF assms(1)])
  with pos t' show ?thesis by simp
qed

lemma unpack4_Inr: "unpack4 s = Inr (n, c, h, w) \<longleftrightarrow> s = [n, c, h, w]"
  by (auto simp: unpack4_def split: list.splits)

lemma AttentionGeneration_operands_InrD:
  assumes "AttentionGeneration_operands W m ag x = Inr (rf, sm, n, h, w)"
  shows "\<exists>rx att c af.
           ConvBNReLU_forward W m (conv_reduce ag) x = Inr rx \<and>
           attention_stack W m ag rx = Inr att \<and> shape att = [n, c, h, w] \<and>
           view_infer att [n, c] = Inr af \<and>
           view_infer rx [n, reduced_channels ag] = Inr rf \<and>
           softmax_dim1 af = Inr sm"
  using assms
  by (auto simp: AttentionGeneration_operands_def bindE_Inr_iff unpack4_Inr)

lemma bindE_simps [simp]: "bindE (Inl e) f = Inl e" "bindE (Inr v) f = f v"
  by (simp_all add: bindE_def)

lemma AttentionGeneration_init_simps:
  "conv_reduce (fst (AttentionGeneration_init cin red cout k)) =
     \<lparr>in_channels = cin, out_channels = red, kernel_size = 1, padding = 0, slot = k\<rparr>"
  "attention0 (fst (AttentionGeneration_init cin red cout k)) =
     \<lparr>in_channels = red, out_channels = red, kernel_size = 1, padding = 0, slot = Suc k\<rparr>"
  "attention1 (fst (AttentionGeneration_init cin red cout k)) =
     \<lparr>in_channels = red, out_channels = cout, kernel_size = 1, padding = 0, slot = Suc (Suc k)\<rparr>"
  "reduced_channels (fst (AttentionGeneration_init cin red cout k)) = red"
  "snd (AttentionGeneration_init cin red cout k) = k + 3"
  by (simp_all add: AttentionGeneration_init_def ConvBNReLU_init_def Conv2d_init_def)

lemma conv_shape_1x1:
  "kernel_size L = 1 \<Longrightarrow> padding L = 0 \<Longrightarrow>
   conv_shape L [n, c, h, w] =
     (if out_channels L = 0 then Inl EmptyWeight
      else if c \<noteq> in_channels L then Inl (ChannelMismatch (in_channels L) c)
      else if h = 0 \<or> w = 0 then Inl KernelTooLarge
      else Inr [n, out_channels L, h, w])"
  by (auto simp: conv_shape_def)

lemma view_infer_flatten:
  "shape t = [n, c, h, w] \<Longrightarrow>
   view_infer t [n, c] =
     (if n = 0 \<or> c = 0 then Inl ViewAmbiguous
      else Inr \<lparr>shape = [n, c, h * w], storage = storage t\<rparr>)"
  by (simp add: view_infer_def numel_rank4)

lemma AttentionGeneration_operands_shape:
  assumes "shape x = [n, c, h, w]"
  shows "map_sum id (\<lambda>(rf, sm, n', h', w'). (shape rf, shape sm, n', h', w'))
           (AttentionGeneration_operands W m (fst (AttentionGeneration_init cin red cout k)) x) =
     (if red = 0 then Inl EmptyWeight
      else if c \<noteq> cin then Inl (ChannelMismatch cin c)
      else if h = 0 \<or> w = 0 then Inl KernelTooLarge
      else if cout = 0 then Inl EmptyWeight
      else if n = 0 then Inl ViewAmbiguous
      else Inr ([n, red, h * w], [n, cout, h * w], n, h, w))"
  using assms
  by (simp add: AttentionGeneration_operands_def AttentionGeneration_init_simps
      attention_stack_def ConvBNReLU_forward_def Conv2d_forward_def conv_shape_1x1
      unpack4_def view_infer_flatten softmax_dim1_def Let_def)

lemma AttentionGeneration_forward_shape:
  assumes "shape x = [n, c, h, w]"
  shows "map_sum id shape
           (AttentionGeneration_forward W m (fst (AttentionGeneration_init cin red cout k)) x) =
     (if red = 0 then Inl EmptyWeight
      else if c \<noteq> cin then Inl (ChannelMismatch cin c)
      else if h = 0 \<or> w = 0 then Inl KernelTooLarge
      else if cout = 0 then Inl EmptyWeight
      else if n = 0 then Inl ViewAmbiguous
      else if h * w \<noteq> cout then Inl (BmmShapeMismatch [n, red, h * w] [n, cout, h * w])
      else Inr [n, red, h, w])"
  using assms
  by (simp add: AttentionGeneration_forward_def AttentionGeneration_operands_def
      AttentionGeneration_init_simps
      attention_stack_def ConvBNReLU_forward_def Conv2d_forward_def conv_shape_1x1
      unpack4_def view_infer_flatten softmax_dim1_def bmm_def view_def numel_def Let_def)

lemma bmm_Inr_shapes:
  "bmm a s = Inr fm \<Longrightarrow> shape a = [n, r, q] \<Longrightarrow> shape s = [n', c, p] \<Longrightarrow> n = n' \<and> q = c"
  by (simp add: bmm_def split: if_splits)

text \<open>
  The normalised axis is the contracted axis. In exact real arithmetic (no rounding, all
  attention values finite), whenever \<open>_AttentionGeneration.forward\<close> reaches \<open>torch.bmm\<close>, the
  second operand has, for every batch index and every output position \<open>j\<close>, a column that
  sums to 1 over the dimension the product contracts, and the product weighs the reduced
  features by that column. What the rounded single-precision computation sums to is not
  expressed by this development.
\<close>

lemma attention_columns_sum_real:
  assumes "AttentionGeneration_operands W m ag x = Inr (rf, sm, n, h, w)"
  shows "\<exists>c. shape sm = [n, c, h * w] \<and> 0 < c \<and>
           (\<forall>b<n. \<forall>j<h * w. (\<Sum>i<c. at3 sm b i j) = 1) \<and>
           (\<forall>fm. bmm rf sm = Inr fm \<longrightarrow>
              (\<forall>b<n. \<forall>r<reduced_channels ag. \<forall>j<h * w.
                 at3 fm b r j = (\<Sum>i<c. at3 rf b r i * at3 sm b i j)))"
proof -
  from AttentionGeneration_operands_InrD [OF assms] obtain rx att c af where
    att: "shape att = [n, c, h, w]" and af: "view_infer att [n, c] = Inr af" and
    rf: "view_infer rx [n, reduced_channels ag] = Inr rf" and
    sm: "softmax_dim1 af = Inr sm"
    by blast
  from view_infer_rank4 [OF att af] have c: "0 < c"
    and shaf: "shape af = [n, c, h * w]" by simp_all
  have shsm: "shape sm = [n, c, h * w]"
    using sm by (auto simp: softmax_dim1_rank3 [OF shaf])
  have sums: "(\<Sum>i<c. at3 sm b i j) = 1" if "j < h * w" for b j
    using shaf sm c that by (rule softmax_column_sum)
  have prod: "at3 fm b r j = (\<Sum>i<c. at3 rf b r i * at3 sm b i j)"
    if fm: "bmm rf sm = Inr fm" and r: "r < reduced_channels ag" and j: "j < h * w"
    for fm b r j
  proof -
    from view_infer_Inr [OF rf] obtain q where shrf0: "shape rf = [n, reduced_channels ag, q]"
      by simp
    from bmm_Inr_shapes [OF fm shrf0 shsm] have "q = c" by simp
    with shrf0 have shrf: "shape rf = [n, reduced_channels ag, c]" by simp
    from bmm_element [OF shrf shsm fm r j] show ?thesis by simp
  qed
  from shsm c sums prod show ?thesis by blast
qed

lemma bmm_ok:
  "shape a = [n, r, c] \<Longrightarrow> shape s = [n, c, p] \<Longrightarrow> \<exists>fm. bmm a s = Inr fm \<and> shape fm = [n, r, p]"
  by (simp add: bmm_def)


lemma map_sum_InrD: "map_sum f g r = Inr v \<Longrightarrow> \<exists>u. r = Inr u \<and> g u = v"
  by (cases r) auto

lemma shape_zeros: "shape (zeros s) = s"
  by (simp add: zeros_def)

lemma at3_view_flat:
  assumes "shape t = [n, c, h, w]"
  shows "at3 \<lparr>shape = [n, c, h * w], storage = storage t\<rparr> b i p = spec_flatten t b i p"
proof -
  have "((b * c + i) * h + p div w) * w + p mod w = (b * c + i) * (h * w) + (p div w * w + p mod w)"
    by (simp add: algebra_simps)
  also have "p div w * w + p mod w = p" by simp
  finally show ?thesis by (simp add: at3_def at4_def spec_flatten_def assms)
qed

lemma at4_view_unflat:
  "at4 \<lparr>shape = [n, r, h, w], storage = st\<rparr> b i y x
     = at3 \<lparr>shape = [n, r, h * w], storage = st\<rparr> b i (y * w + x)"
proof -
  have "((b * r + i) * h + y) * w + x = (b * r + i) * (h * w) + (y * w + x)"
    by (simp add: algebra_simps)
  then show ?thesis by (simp add: at3_def at4_def add.assoc)
qed

lemma AttentionGeneration_forward_rank:
  assumes "AttentionGeneration_forward W m ag x = Inr out"
  shows "\<exists>n c h w. shape x = [n, c, h, w]"
proof -
  from assms obtain ops where "AttentionGeneration_operands W m ag x = Inr ops"
    by (auto simp: AttentionGeneration_forward_def bindE_Inr_iff)
  then obtain rx where "ConvBNReLU_forward W m (conv_reduce ag) x = Inr rx"
    by (auto simp: AttentionGeneration_operands_def bindE_Inr_iff)
  then obtain s' where "conv_shape (conv_reduce ag) (shape x) = Inr s'"
    by (auto simp: ConvBNReLU_forward_def bindE_Inr_iff)
  from conv_shape_Inr [OF this] show ?thesis by blast
qed

lemma AttentionGeneration_forward_InrD:
  assumes "AttentionGeneration_forward W m (fst (AttentionGeneration_init cin red cout k)) x = Inr out"
  shows "\<exists>n h w. shape x = [n, cin, h, w] \<and> 0 < n \<and> 0 < h \<and> 0 < w \<and> 0 < red \<and> 0 < cout \<and>
           h * w = cout \<and> shape out = [n, red, h, w]"
proof -
  from AttentionGeneration_forward_rank [OF assms] obtain n c h w where x: "shape x = [n, c, h, w]"
    by blast
  from AttentionGeneration_forward_shape [OF x, of W m cin red cout k] assms
  show ?thesis using x by (auto split: if_splits)
qed

lemma conv_1x1_forward:
  assumes "shape x = [n, in_channels L, h, w]" "0 < h" "0 < w" "kernel_size L = 1" "padding L = 0"
    "0 < out_channels L"
  shows "\<exists>y. ConvBNReLU_forward W m L x = Inr y \<and> shape y = [n, out_channels L, h, w]"
    and "\<exists>y. Conv2d_forward W m L x = Inr y \<and> shape y = [n, out_channels L, h, w]"
  using assms by (simp_all add: ConvBNReLU_forward_def Conv2d_forward_def conv_shape_1x1)

text \<open>
  C2. For every input that \<open>_AttentionGeneration.forward\<close> accepts, the input has shape
  (N, in_channels, H, W), the attention tensor has H * W channels, and the result has shape
  (N, reduced_channels, H, W) and equals, element by element, the composition of the
  specification: flatten the spatial dimensions of the reduced feature map and of the
  attention tensor, normalise the attention by softmax over its channel axis, multiply
  the reduced features (reduced_channels x positions) by the normalised attention
  (positions x positions), and reshape.
\<close>

theorem attention_forward_refines_spec:
  assumes "AttentionGeneration_forward W m (fst (AttentionGeneration_init cin red cout k)) x = Inr out"
  shows "\<exists>n h w rx att.
           shape x = [n, cin, h, w] \<and>
           ConvBNReLU_forward W m (conv_reduce (fst (AttentionGeneration_init cin red cout k))) x = Inr rx \<and>
           shape rx = [n, red, h, w] \<and>
           attention_stack W m (fst (AttentionGeneration_init cin red cout k)) rx = Inr att \<and>
           shape att = [n, h * w, h, w] \<and>
           shape out = [n, red, h, w] \<and>
           (\<forall>b<n. \<forall>r<red. \<forall>y<h. \<forall>xx<w.
              at4 out b r y xx = spec_weighted_feature rx att b r y xx)"
proof -
  let ?ag = "fst (AttentionGeneration_init cin red cout k)"
  from AttentionGeneration_forward_InrD [OF assms] obtain n h w where
    x: "shape x = [n, cin, h, w]" and pos: "0 < n" "0 < h" "0 < w" "0 < red" "0 < cout"
    and hw: "h * w = cout" and shout: "shape out = [n, red, h, w]"
    by blast
  obtain rx where rx: "ConvBNReLU_forward W m (conv_reduce ?ag) x = Inr rx"
    and shrx: "shape rx = [n, red, h, w]"
    using conv_1x1_forward(1) [of x n "conv_reduce ?ag" h w W m] x pos
    by (auto simp: AttentionGeneration_init_simps)
  obtain a0 where a0: "ConvBNReLU_forward W m (attention0 ?ag) rx = Inr a0"
    and sha0: "shape a0 = [n, red, h, w]"
    using conv_1x1_forward(1) [of rx n "attention0 ?ag" h w W m] shrx pos
    by (auto simp: AttentionGeneration_init_simps)
  obtain att where att0: "Conv2d_forward W m (attention1 ?ag) a0 = Inr att"
    and shatt: "shape att = [n, cout, h, w]"
    using conv_1x1_forward(2) [of a0 n "attention1 ?ag" h w W m] sha0 pos
    by (auto simp: AttentionGeneration_init_simps)
  have att: "attention_stack W m ?ag rx = Inr att"
    by (simp add: attention_stack_def a0 att0)
  let ?rf = "\<lparr>shape = [n, red, h * w], storage = storage rx\<rparr>"
  let ?af = "\<lparr>shape = [n, cout, h * w], storage = storage att\<rparr>"
  have shaf: "shape ?af = [n, cout, h * w]" and shrf: "shape ?rf = [n, red, cout]"
    by (simp_all add: hw)
  obtain sm where sm: "softmax_dim1 ?af = Inr sm" and shsm: "shape sm = [n, cout, h * w]"
    by (simp add: softmax_dim1_rank3 [OF shaf])
  from bmm_ok [OF shrf shsm] obtain fm where fm: "bmm ?rf sm = Inr fm"
    and shfm: "shape fm = [n, red, h * w]" by blast
  have fwd: "AttentionGeneration_forward W m ?ag x = view fm [n, red, h, w]"
    using pos by (simp add: AttentionGeneration_forward_def AttentionGeneration_operands_def
        rx att shatt unpack4_def view_infer_flatten [OF shatt] view_infer_flatten [OF shrx]
        AttentionGeneration_init_simps(4) sm fm)
  have out: "out = \<lparr>shape = [n, red, h, w], storage = storage fm\<rparr>"
    using assms by (simp add: fwd view_def numel_def shfm)
  have el: "at4 out b r y xx = spec_weighted_feature rx att b r y xx"
    if r: "r < red" and y: "y < h" and xx: "xx < w" for b r y xx
  proof -
    have j: "y * w + xx < h * w"
    proof -
      have "y * w + xx < y * w + w" using xx by simp
      also have "\<dots> = Suc y * w" by simp
      also have "\<dots> \<le> h * w" using y by (intro mult_le_mono1) simp
      finally show ?thesis .
    qed
    have fm_eq: "\<lparr>shape = [n, red, h * w], storage = storage fm\<rparr> = fm"
      using shfm by (cases fm) simp
    have "at4 out b r y xx = at3 fm b r (y * w + xx)"
      by (simp only: out at4_view_unflat fm_eq)
    also have "\<dots> = (\<Sum>i<cout. at3 ?rf b r i * at3 sm b i (y * w + xx))"
      using bmm_element [OF shrf shsm fm r j] by simp
    also have "\<dots> = (\<Sum>i<cout. spec_flatten rx b r i *
                         spec_softmax (spec_flatten att) cout b i (y * w + xx))"
    proof (rule sum.cong)
      fix i assume "i \<in> {..<cout}"
      then have i: "i < cout" by simp
      have "at3 sm b i (y * w + xx) =
              exp (at3 ?af b i (y * w + xx)) / (\<Sum>k<cout. exp (at3 ?af b k (y * w + xx)))"
        using softmax_element [OF shaf sm i j] by simp
      then show "at3 ?rf b r i * at3 sm b i (y * w + xx) =
            spec_flatten rx b r i * spec_softmax (spec_flatten att) cout b i (y * w + xx)"
        by (simp only: at3_view_flat [OF shrx] at3_view_flat [OF shatt] spec_softmax_def)
    qed simp
    also have "\<dots> = spec_weighted_feature rx att b r y xx"
      by (simp add: spec_weighted_feature_def spec_bmm_def shrx hw)
    finally show ?thesis .
  qed
  have shatt': "shape att = [n, h * w, h, w]" using shatt hw by simp
  from x rx shrx att shatt' shout el show ?thesis by blast
qed


lemma map_sum_InlD: "map_sum id g r = Inl e \<Longrightarrow> r = Inl e"
  by (cases r) auto

lemma AttentionGeneration_forward_ok:
  assumes "shape x = [n, cin, h, w]" "0 < n" "0 < red" "0 < cout" "h * w = cout"
  shows "\<exists>t. AttentionGeneration_forward W m (fst (AttentionGeneration_init cin red cout k)) x = Inr t
            \<and> shape t = [n, red, h, w]"
proof -
  have "0 < h" "0 < w" using assms(4,5) by auto
  then have "map_sum id shape
           (AttentionGeneration_forward W m (fst (AttentionGeneration_init cin red cout k)) x) =
        Inr [n, red, h, w]"
    using assms by (simp add: AttentionGeneration_forward_shape [OF assms(1)])
  from map_sum_InrD [OF this] show ?thesis by blast
qed

lemma AttentionGeneration_forward_mismatch:
  assumes "shape x = [n, cin, h, w]" "0 < n" "0 < red" "0 < cout" "0 < h * w" "h * w \<noteq> cout"
  shows "AttentionGeneration_forward W m (fst (AttentionGeneration_init cin red cout k)) x
           = Inl (BmmShapeMismatch [n, red, h * w] [n, cout, h * w])"
proof -
  have "0 < h" "0 < w" using assms(5) by auto
  then have "map_sum id shape
           (AttentionGeneration_forward W m (fst (AttentionGeneration_init cin red cout k)) x) =
        Inl (BmmShapeMismatch [n, red, h * w] [n, cout, h * w])"
    using assms by (simp add: AttentionGeneration_forward_shape [OF assms(1)])
  then show ?thesis by (rule map_sum_InlD)
qed

lemma bmm_iff:
  "shape a = [n, r, q] \<Longrightarrow> shape s = [n', c, p] \<Longrightarrow>
     (\<exists>fm. bmm a s = Inr fm) \<longleftrightarrow> (n = n' \<and> q = c)"
  by (simp add: bmm_def)

lemma AttentionGeneration_operands_shapes:
  assumes "AttentionGeneration_operands W m (fst (AttentionGeneration_init cin red cout k)) x
             = Inr (rf, sm, n', h', w')" "shape x = [n, c, h, w]"
  shows "shape rf = [n, red, h * w] \<and> shape sm = [n, cout, h * w]"
  using AttentionGeneration_operands_shape [OF assms(2), of W m cin red cout k] assms(1)
  by (simp split: if_splits)

lemma PointwiseSpatialAttention_init_simps:
  "collect_attention (fst (PointwiseSpatialAttention_init cin cout k)) =
     fst (AttentionGeneration_init cin 512 cout k)"
  "distribute_attention (fst (PointwiseSpatialAttention_init cin cout k)) =
     fst (AttentionGeneration_init cin 512 cout (k + 3))"
  "snd (PointwiseSpatialAttention_init cin cout k) = k + 6"
  by (simp_all add: PointwiseSpatialAttention_init_def AttentionGeneration_init_simps(5)
      split_beta Let_def)

lemma PSAHead_init_simps:
  "psa (fst (PSAHead_init ncls k)) = fst (PointwiseSpatialAttention_init 2048 3600 k)"
  "conv_post (fst (PSAHead_init ncls k)) =
     \<lparr>in_channels = 1024, out_channels = 2048, kernel_size = 1, padding = 0, slot = k + 6\<rparr>"
  "project0 (fst (PSAHead_init ncls k)) =
     \<lparr>in_channels = 4096, out_channels = 512, kernel_size = 3, padding = 1, slot = k + 7\<rparr>"
  "project1_p (fst (PSAHead_init ncls k)) = 1 / 10"
  "project2 (fst (PSAHead_init ncls k)) =
     \<lparr>in_channels = 512, out_channels = ncls, kernel_size = 1, padding = 0, slot = k + 8\<rparr>"
  "snd (PSAHead_init ncls k) = k + 9"
  by (simp_all add: PSAHead_init_def PointwiseSpatialAttention_init_simps(3)
      ConvBNReLU_init_def Conv2d_init_def split_beta Let_def)

text \<open>
  C4. For either attention module of \<open>_PSAHead\<close> (out_channels hard-coded to 3600) and an
  input of shape (N, C, H, W): whenever the operands of \<open>torch.bmm\<close> are reached, the product
  is well-formed if and only if H * W = 3600; for any other spatial size \<open>forward\<close> returns
  an error and no tensor (for a 2048-channel input with N > 0 it is the shape mismatch of
  the product); and for H * W = 3600 it returns a tensor of shape (N, 512, H, W).
\<close>

theorem attention_bmm_wellformed_iff:
  assumes "ag = collect_attention (psa (fst (PSAHead_init ncls k))) \<or>
           ag = distribute_attention (psa (fst (PSAHead_init ncls k)))"
      and "shape x = [n, c, h, w]"
  shows "(\<forall>rf sm n' h' w'. AttentionGeneration_operands W m ag x = Inr (rf, sm, n', h', w') \<longrightarrow>
            ((\<exists>fm. bmm rf sm = Inr fm) \<longleftrightarrow> h * w = 3600))
       \<and> (h * w \<noteq> 3600 \<longrightarrow> (\<exists>e. AttentionGeneration_forward W m ag x = Inl e))
       \<and> (c = 2048 \<and> 0 < n \<and> 0 < h * w \<and> h * w \<noteq> 3600 \<longrightarrow>
            AttentionGeneration_forward W m ag x
              = Inl (BmmShapeMismatch [n, 512, h * w] [n, 3600, h * w]))
       \<and> (c = 2048 \<and> 0 < n \<and> h * w = 3600 \<longrightarrow>
            (\<exists>t. AttentionGeneration_forward W m ag x = Inr t \<and> shape t = [n, 512, h, w]))"
proof -
  from assms(1) obtain k' where ag: "ag = fst (AttentionGeneration_init 2048 512 3600 k')"
    by (auto simp: PSAHead_init_simps PointwiseSpatialAttention_init_simps)
  have A: "(\<exists>fm. bmm rf sm = Inr fm) \<longleftrightarrow> h * w = 3600"
    if "AttentionGeneration_operands W m ag x = Inr (rf, sm, n', h', w')" for rf sm n' h' w'
  proof -
    from AttentionGeneration_operands_shapes [OF that [unfolded ag] assms(2)]
    have "shape rf = [n, 512, h * w]" "shape sm = [n, 3600, h * w]" by simp_all
    from bmm_iff [OF this] show ?thesis by simp
  qed
  have B: "\<exists>e. AttentionGeneration_forward W m ag x = Inl e" if "h * w \<noteq> 3600"
  proof (cases "AttentionGeneration_forward W m ag x")
    case (Inl e)
    then show ?thesis by blast
  next
    case (Inr t)
    from AttentionGeneration_forward_InrD [OF Inr [unfolded ag]] assms(2) that
    show ?thesis by simp
  qed
  have C: "AttentionGeneration_forward W m ag x
              = Inl (BmmShapeMismatch [n, 512, h * w] [n, 3600, h * w])"
    if "c = 2048" "0 < n" "0 < h * w" "h * w \<noteq> 3600"
    unfolding ag
    by (rule AttentionGeneration_forward_mismatch) (use that assms(2) in simp_all)
  have D: "\<exists>t. AttentionGeneration_forward W m ag x = Inr t \<and> shape t = [n, 512, h, w]"
    if "c = 2048" "0 < n" "h * w = 3600"
    unfolding ag
    by (rule AttentionGeneration_forward_ok) (use that assms(2) in simp_all)
  show ?thesis
  proof (intro conjI allI impI)
    fix rf sm n' h' w'
    assume "AttentionGeneration_operands W m ag x = Inr (rf, sm, n', h', w')"
    then show "(\<exists>fm. bmm rf sm = Inr fm) \<longleftrightarrow> h * w = 3600" by (rule A)
  next
    assume "h * w \<noteq> 3600"
    then show "\<exists>e. AttentionGeneration_forward W m ag x = Inl e" by (rule B)
  next
    assume "c = 2048 \<and> 0 < n \<and> 0 < h * w \<and> h * w \<noteq> 3600"
    then show "AttentionGeneration_forward W m ag x
              = Inl (BmmShapeMismatch [n, 512, h * w] [n, 3600, h * w])"
      by (elim conjE) (rule C)
  next
    assume "c = 2048 \<and> 0 < n \<and> h * w = 3600"
    then show "\<exists>t. AttentionGeneration_forward W m ag x = Inr t \<and> shape t = [n, 512, h, w]"
      by (elim conjE) (rule D)
  qed
qed

theorem attention_bmm_wellformed_iff_witness:
  "(\<exists>t. AttentionGeneration_forward zero_weights Inference
          (collect_attention (psa (fst (PSAHead_init 1 0)))) (zeros [1, 2048, 60, 60]) = Inr t
        \<and> shape t = [1, 512, 60, 60])
   \<and> AttentionGeneration_forward zero_weights Inference
        (distribute_attention (psa (fst (PSAHead_init 1 0)))) (zeros [1, 2048, 32, 32])
      = Inl (BmmShapeMismatch [1, 512, 32 * 32] [1, 3600, 32 * 32])"
proof -
  note T1 = attention_bmm_wellformed_iff [where ag = "collect_attention (psa (fst (PSAHead_init 1 0)))"
      and ncls = 1 and k = 0 and x = "zeros [1, 2048, 60, 60]" and n = 1 and c = 2048
      and h = 60 and w = 60 and W = zero_weights and m = Inference,
      OF disjI1 [OF refl] shape_zeros]
  note T2 = attention_bmm_wellformed_iff [where ag = "distribute_attention (psa (fst (PSAHead_init 1 0)))"
      and ncls = 1 and k = 0 and x = "zeros [1, 2048, 32, 32]" and n = 1 and c = 2048
      and h = 32 and w = 32 and W = zero_weights and m = Inference,
      OF disjI2 [OF refl] shape_zeros]
  have p1: "(2048::nat) = 2048 \<and> (0::nat) < 1 \<and> (60::nat) * 60 = 3600" by simp
  have p2: "(2048::nat) = 2048 \<and> (0::nat) < 1 \<and> (0::nat) < 32 * 32 \<and> (32::nat) * 32 \<noteq> 3600" by simp
  from T1 [THEN conjunct2, THEN conjunct2, THEN conjunct2, THEN mp, OF p1]
       T2 [THEN conjunct2, THEN conjunct2, THEN conjunct1, THEN mp, OF p2]
  show ?thesis by (rule conjI)
qed

theorem attention_forward_refines_spec_witness:
  "\<exists>out rx att.
     AttentionGeneration_forward zero_weights Inference
        (fst (AttentionGeneration_init 2048 512 3600 0)) (zeros [1, 2048, 60, 60]) = Inr out \<and>
     ConvBNReLU_forward zero_weights Inference
        (conv_reduce (fst (AttentionGeneration_init 2048 512 3600 0))) (zeros [1, 2048, 60, 60]) = Inr rx \<and>
     attention_stack zero_weights Inference (fst (AttentionGeneration_init 2048 512 3600 0)) rx = Inr att \<and>
     shape out = [1, 512, 60, 60] \<and>
     at4 out 0 5 7 9 = spec_weighted_feature rx att 0 5 7 9"
proof -
  let ?ag = "fst (AttentionGeneration_init 2048 512 3600 0)"
  let ?x = "zeros [1, 2048, 60, 60]"
  have "\<exists>t. AttentionGeneration_forward zero_weights Inference ?ag ?x = Inr t
            \<and> shape t = [1, 512, 60, 60]"
    by (rule AttentionGeneration_forward_ok) (simp_all add: shape_zeros)
  then obtain out where out: "AttentionGeneration_forward zero_weights Inference ?ag ?x = Inr out"
    by (elim exE conjE)
  from attention_forward_refines_spec [OF out] obtain n h w rx att where
    x: "shape ?x = [n, 2048, h, w]"
    and rx: "ConvBNReLU_forward zero_weights Inference (conv_reduce ?ag) ?x = Inr rx"
    and att: "attention_stack zero_weights Inference ?ag rx = Inr att"
    and shout: "shape out = [n, 512, h, w]"
    and el: "\<forall>b<n. \<forall>r<512. \<forall>y<h. \<forall>xx<w.
              at4 out b r y xx = spec_weighted_feature rx att b r y xx"
    by (elim exE conjE)
  from x have nhw: "n = 1" "h = 60" "w = 60" by (simp_all add: shape_zeros)
  have e: "at4 out 0 5 7 9 = spec_weighted_feature rx att 0 5 7 9"
    by (rule el [rule_format]) (simp_all add: nhw)
  from shout have shout': "shape out = [1, 512, 60, 60]" by (simp add: nhw)
  from out rx att shout' e show ?thesis by (intro exI conjI)
qed


lemma lt_block: "i < c \<Longrightarrow> j < m \<Longrightarrow> i * m + j < c * (m::nat)"
proof -
  assume a: "i < c" "j < m"
  have "i * m + j < i * m + m" using a by simp
  also have "\<dots> = Suc i * m" by simp
  also have "\<dots> \<le> c * m" using a by (intro mult_le_mono1) simp
  finally show ?thesis .
qed

lemma cat_dim1_rank4:
  assumes "shape a = [n, c1, h, w]" "shape b = [n, c2, h, w]"
  shows "\<exists>t. cat_dim1 a b = Inr t \<and> shape t = [n, c1 + c2, h, w] \<and>
           (\<forall>bi ch y x. ch < c1 + c2 \<longrightarrow> y < h \<longrightarrow> x < w \<longrightarrow>
              at4 t bi ch y x = (if ch < c1 then at4 a bi ch y x else at4 b bi (ch - c1) y x))"
proof -
  let ?blk = "(c1 + c2) * (h * w)"
  let ?t = "\<lparr>shape = [n, c1 + c2, h, w],
             storage = (\<lambda>off.
               if off mod ?blk < c1 * (h * w)
               then storage a (off div ?blk * (c1 * (h * w)) + off mod ?blk)
               else storage b (off div ?blk * (c2 * (h * w)) + (off mod ?blk - c1 * (h * w))))\<rparr>"
  have t: "cat_dim1 a b = Inr ?t"
    by (simp add: cat_dim1_def assms Let_def)
  have el: "at4 ?t bi ch y x = (if ch < c1 then at4 a bi ch y x else at4 b bi (ch - c1) y x)"
    if ch: "ch < c1 + c2" and y: "y < h" and x: "x < w" for bi ch y x
  proof -
    let ?r = "(ch * h + y) * w + x"
    have off: "((bi * (c1 + c2) + ch) * h + y) * w + x = bi * ?blk + ?r"
      by (simp add: algebra_simps)
    have "ch * h + y < (c1 + c2) * h" using ch y by (rule lt_block)
    then have "?r < ((c1 + c2) * h) * w" using x by (rule lt_block)
    then have rlt: "?r < ?blk" by (simp add: mult.assoc)
    have nz: "?blk \<noteq> 0" using ch y x by auto
    have md: "(bi * ?blk + ?r) mod ?blk = ?r" using rlt by simp
    have "(bi * ?blk + ?r) div ?blk = bi + ?r div ?blk" using nz by (rule div_mult_self3)
    then have dv: "(bi * ?blk + ?r) div ?blk = bi" using rlt by simp
    have st: "at4 ?t bi ch y x =
        (if ?r < c1 * (h * w) then storage a (bi * (c1 * (h * w)) + ?r)
         else storage b (bi * (c2 * (h * w)) + (?r - c1 * (h * w))))"
      unfolding at4_def by (simp only: tensor.simps nth_Cons_0 nth_Cons_Suc One_nat_def
          numeral_2_eq_2 numeral_3_eq_3 off md dv)
    show ?thesis
    proof (cases "ch < c1")
      case True
      have "ch * h + y < c1 * h" using True y by (rule lt_block)
      then have "?r < (c1 * h) * w" using x by (rule lt_block)
      then have lt: "?r < c1 * (h * w)" by (simp add: mult.assoc)
      have ix: "bi * (c1 * (h * w)) + ?r = ((bi * c1 + ch) * h + y) * w + x"
        by (simp add: algebra_simps)
      have "at4 ?t bi ch y x = storage a (bi * (c1 * (h * w)) + ?r)"
        using lt by (simp only: st if_True)
      also have "\<dots> = at4 a bi ch y x" by (simp only: ix) (simp add: at4_def assms)
      finally show ?thesis using True by simp
    next
      case False
      then obtain d where d: "ch = c1 + d" using le_Suc_ex [of c1 ch] by auto
      have req: "?r = c1 * (h * w) + ((d * h + y) * w + x)" by (simp add: d algebra_simps)
      have ge: "\<not> ?r < c1 * (h * w)" by (simp only: req not_less le_add1)
      have df: "?r - c1 * (h * w) = (d * h + y) * w + x" by (simp only: req add_diff_cancel_left')
      have ix: "bi * (c2 * (h * w)) + ((d * h + y) * w + x) = ((bi * c2 + d) * h + y) * w + x"
        by (simp add: algebra_simps)
      have dd: "ch - c1 = d" by (simp add: d)
      have "at4 ?t bi ch y x = storage b (bi * (c2 * (h * w)) + (?r - c1 * (h * w)))"
        using ge by (simp only: st if_False)
      also have "\<dots> = storage b (((bi * c2 + d) * h + y) * w + x)" by (simp only: df ix)
      also have "\<dots> = at4 b bi (ch - c1) y x" by (simp add: at4_def assms dd)
      finally show ?thesis using False by simp
    qed
  qed
  from t el show ?thesis by (intro exI [of _ ?t]) simp
qed

lemma ConvBNReLU_forward_cong:
  "W' (slot L) = W (slot L) \<Longrightarrow> ConvBNReLU_forward W' m L x = ConvBNReLU_forward W m L x"
  by (simp add: ConvBNReLU_forward_def)

lemma Conv2d_forward_cong:
  "W' (slot L) = W (slot L) \<Longrightarrow> Conv2d_forward W' m L x = Conv2d_forward W m L x"
  by (simp add: Conv2d_forward_def)

lemma AttentionGeneration_forward_cong:
  assumes "\<forall>s\<in>AttentionGeneration_slots ag. W' s = W s"
  shows "AttentionGeneration_forward W' m ag x = AttentionGeneration_forward W m ag x"
proof -
  from assms have w: "W' (slot (conv_reduce ag)) = W (slot (conv_reduce ag))"
    "W' (slot (attention0 ag)) = W (slot (attention0 ag))"
    "W' (slot (attention1 ag)) = W (slot (attention1 ag))"
    by (simp_all add: AttentionGeneration_slots_def)
  have "ConvBNReLU_forward W' m (conv_reduce ag) = ConvBNReLU_forward W m (conv_reduce ag)"
    "ConvBNReLU_forward W' m (attention0 ag) = ConvBNReLU_forward W m (attention0 ag)"
    "Conv2d_forward W' m (attention1 ag) = Conv2d_forward W m (attention1 ag)"
    by (rule ext, simp add: ConvBNReLU_forward_def Conv2d_forward_def w)+
  then show ?thesis
    by (simp add: AttentionGeneration_forward_def AttentionGeneration_operands_def
        attention_stack_def)
qed

lemma AttentionGeneration_init_slots:
  "AttentionGeneration_slots (fst (AttentionGeneration_init cin red cout k)) = {k, Suc k, Suc (Suc k)}"
  by (simp add: AttentionGeneration_slots_def AttentionGeneration_init_simps)

text \<open>
  C5, amended. For every input of shape (N, in_channels, H, W) with N > 0 and H * W equal
  to the configured attention out_channels (2048 and 3600 in \<open>_PSAHead\<close>),
  \<open>_PointwiseSpatialAttention.forward\<close> runs the collect and the distribute module on the
  same input and concatenates their outputs along the channel axis: the result has shape
  (N, 2 * 512, H, W), its first 512 channels are the collect output and its last 512 the
  distribute output. The two modules own disjoint parameter slots, and the output of
  either is unchanged by any change of the weights outside its own slots. (For other
  spatial sizes \<open>forward\<close> raises; see the counterexample.)
\<close>

theorem pointwise_attention_concat:
  assumes "shape x = [n, cin, h, w]" "0 < n" "0 < cout" "h * w = cout"
  shows "\<exists>cf df t.
     AttentionGeneration_forward W m
        (collect_attention (fst (PointwiseSpatialAttention_init cin cout k))) x = Inr cf \<and>
     AttentionGeneration_forward W m
        (distribute_attention (fst (PointwiseSpatialAttention_init cin cout k))) x = Inr df \<and>
     PointwiseSpatialAttention_forward W m (fst (PointwiseSpatialAttention_init cin cout k)) x = Inr t \<and>
     cat_dim1 cf df = Inr t \<and> shape t = [n, 2 * 512, h, w] \<and>
     (\<forall>b<n. \<forall>ch<2 * 512. \<forall>y<h. \<forall>xx<w.
        at4 t b ch y xx = (if ch < 512 then at4 cf b ch y xx else at4 df b (ch - 512) y xx)) \<and>
     AttentionGeneration_slots (collect_attention (fst (PointwiseSpatialAttention_init cin cout k)))
       \<inter> AttentionGeneration_slots (distribute_attention (fst (PointwiseSpatialAttention_init cin cout k)))
       = {} \<and>
     (\<forall>W'. (\<forall>s\<in>AttentionGeneration_slots
                    (collect_attention (fst (PointwiseSpatialAttention_init cin cout k))). W' s = W s) \<longrightarrow>
        AttentionGeneration_forward W' m
          (collect_attention (fst (PointwiseSpatialAttention_init cin cout k))) x = Inr cf) \<and>
     (\<forall>W'. (\<forall>s\<in>AttentionGeneration_slots
                    (distribute_attention (fst (PointwiseSpatialAttention_init cin cout k))). W' s = W s) \<longrightarrow>
        AttentionGeneration_forward W' m
          (distribute_attention (fst (PointwiseSpatialAttention_init cin cout k))) x = Inr df)"
proof -
  let ?P = "fst (PointwiseSpatialAttention_init cin cout k)"
  let ?ca = "collect_attention ?P" and ?da = "distribute_attention ?P"
  have ca: "?ca = fst (AttentionGeneration_init cin 512 cout k)"
    and da: "?da = fst (AttentionGeneration_init cin 512 cout (k + 3))"
    by (simp_all add: PointwiseSpatialAttention_init_simps)
  have "\<exists>t. AttentionGeneration_forward W m ?ca x = Inr t \<and> shape t = [n, 512, h, w]"
    unfolding ca by (rule AttentionGeneration_forward_ok) (use assms in simp_all)
  then obtain cf where cf: "AttentionGeneration_forward W m ?ca x = Inr cf"
    and shcf: "shape cf = [n, 512, h, w]" by (elim exE conjE)
  have "\<exists>t. AttentionGeneration_forward W m ?da x = Inr t \<and> shape t = [n, 512, h, w]"
    unfolding da by (rule AttentionGeneration_forward_ok) (use assms in simp_all)
  then obtain df where df: "AttentionGeneration_forward W m ?da x = Inr df"
    and shdf: "shape df = [n, 512, h, w]" by (elim exE conjE)
  from cat_dim1_rank4 [OF shcf shdf] obtain t where t: "cat_dim1 cf df = Inr t"
    and sht0: "shape t = [n, 512 + 512, h, w]"
    and el0: "\<forall>bi ch y x. ch < 512 + 512 \<longrightarrow> y < h \<longrightarrow> x < w \<longrightarrow>
              at4 t bi ch y x = (if ch < 512 then at4 cf bi ch y x else at4 df bi (ch - 512) y x)"
    by (elim exE conjE)
  have fwd: "PointwiseSpatialAttention_forward W m ?P x = Inr t"
    by (simp add: PointwiseSpatialAttention_forward_def cf df t)
  from sht0 have sht: "shape t = [n, 2 * 512, h, w]" by simp
  have el: "\<forall>b<n. \<forall>ch<2 * 512. \<forall>y<h. \<forall>xx<w.
        at4 t b ch y xx = (if ch < 512 then at4 cf b ch y xx else at4 df b (ch - 512) y xx)"
    using el0 by simp
  have disj: "AttentionGeneration_slots ?ca \<inter> AttentionGeneration_slots ?da = {}"
    by (simp add: ca da AttentionGeneration_init_slots)
  have ic: "\<forall>W'. (\<forall>s\<in>AttentionGeneration_slots ?ca. W' s = W s) \<longrightarrow>
        AttentionGeneration_forward W' m ?ca x = Inr cf"
    using AttentionGeneration_forward_cong [of ?ca _ W m x] cf by simp
  have id: "\<forall>W'. (\<forall>s\<in>AttentionGeneration_slots ?da. W' s = W s) \<longrightarrow>
        AttentionGeneration_forward W' m ?da x = Inr df"
    using AttentionGeneration_forward_cong [of ?da _ W m x] df by simp
  from cf df fwd t sht el disj ic id show ?thesis by (intro exI conjI)
qed

theorem pointwise_attention_concat_counterexample:
  "PointwiseSpatialAttention_forward zero_weights Inference
      (fst (PointwiseSpatialAttention_init 2048 3600 0)) (zeros [1, 2048, 32, 32])
     = Inl (BmmShapeMismatch [1, 512, 1024] [1, 3600, 1024])"
proof -
  have "AttentionGeneration_forward zero_weights Inference
          (fst (AttentionGeneration_init 2048 512 3600 0)) (zeros [1, 2048, 32, 32])
        = Inl (BmmShapeMismatch [1, 512, 32 * 32] [1, 3600, 32 * 32])"
    by (rule AttentionGeneration_forward_mismatch) (simp_all add: shape_zeros)
  then show ?thesis
    by (simp add: PointwiseSpatialAttention_forward_def PointwiseSpatialAttention_init_simps)
qed

theorem pointwise_attention_concat_witness:
  "\<exists>cf df t.
     AttentionGeneration_forward zero_weights Inference
        (collect_attention (fst (PointwiseSpatialAttention_init 2048 3600 0))) (zeros [2, 2048, 60, 60]) = Inr cf \<and>
     AttentionGeneration_forward zero_weights Inference
        (distribute_attention (fst (PointwiseSpatialAttention_init 2048 3600 0))) (zeros [2, 2048, 60, 60]) = Inr df \<and>
     PointwiseSpatialAttention_forward zero_weights Inference
        (fst (PointwiseSpatialAttention_init 2048 3600 0)) (zeros [2, 2048, 60, 60]) = Inr t \<and>
     shape t = [2, 2 * 512, 60, 60] \<and>
     at4 t 1 3 4 5 = at4 cf 1 3 4 5 \<and> at4 t 1 600 4 5 = at4 df 1 (600 - 512) 4 5"
proof -
  let ?P = "fst (PointwiseSpatialAttention_init 2048 3600 0)"
  let ?x = "zeros [2, 2048, 60, 60]"
  have h: "shape ?x = [2, 2048, 60, 60]" "(0::nat) < 2" "(0::nat) < 3600" "(60::nat) * 60 = 3600"
    by (simp_all add: shape_zeros)
  from pointwise_attention_concat [OF h, of zero_weights Inference 0] obtain cf df t where
    cf: "AttentionGeneration_forward zero_weights Inference (collect_attention ?P) ?x = Inr cf"
    and df: "AttentionGeneration_forward zero_weights Inference (distribute_attention ?P) ?x = Inr df"
    and t: "PointwiseSpatialAttention_forward zero_weights Inference ?P ?x = Inr t"
    and sht: "shape t = [2, 2 * 512, 60, 60]"
    and el: "\<forall>b<2. \<forall>ch<2 * 512. \<forall>y<60. \<forall>xx<60.
        at4 t b ch y xx = (if ch < 512 then at4 cf b ch y xx else at4 df b (ch - 512) y xx)"
    by (elim exE conjE)
  have e1: "at4 t 1 3 4 5 = (if (3::nat) < 512 then at4 cf 1 3 4 5 else at4 df 1 (3 - 512) 4 5)"
    by (rule el [rule_format]) simp_all
  have e2: "at4 t 1 600 4 5 = (if (600::nat) < 512 then at4 cf 1 600 4 5 else at4 df 1 (600 - 512) 4 5)"
    by (rule el [rule_format]) simp_all
  from e1 have e1': "at4 t 1 3 4 5 = at4 cf 1 3 4 5" by simp
  from e2 have e2': "at4 t 1 600 4 5 = at4 df 1 (600 - 512) 4 5" by simp
  from cf df t sht e1' e2' show ?thesis by (intro exI conjI)
qed


lemma conv_shape_3x3:
  "kernel_size L = 3 \<Longrightarrow> padding L = 1 \<Longrightarrow>
   conv_shape L [n, c, h, w] =
     (if out_channels L = 0 then Inl EmptyWeight
      else if c \<noteq> in_channels L then Inl (ChannelMismatch (in_channels L) c)
      else if h = 0 \<or> w = 0 then Inl KernelTooLarge
      else Inr [n, out_channels L, h, w])"
  by (auto simp: conv_shape_def)

lemma Dropout2d_rank4:
  "shape x = [n, c, h, w] \<Longrightarrow> \<exists>d. Dropout2d p m keep x = Inr d \<and> shape d = [n, c, h, w]"
  by (cases m) (simp_all add: Dropout2d_def)

lemma PointwiseSpatialAttention_forward_InrD:
  assumes "PointwiseSpatialAttention_forward W m (fst (PointwiseSpatialAttention_init cin cout k)) x = Inr g"
  shows "\<exists>n h w. shape x = [n, cin, h, w] \<and> 0 < n \<and> 0 < cout \<and> h * w = cout"
proof -
  from assms obtain cf where
    "AttentionGeneration_forward W m (fst (AttentionGeneration_init cin 512 cout k)) x = Inr cf"
    by (auto simp: PointwiseSpatialAttention_forward_def bindE_Inr_iff
        PointwiseSpatialAttention_init_simps)
  from AttentionGeneration_forward_InrD [OF this] show ?thesis by blast
qed

lemma PointwiseSpatialAttention_forward_ok:
  assumes "shape x = [n, cin, h, w]" "0 < n" "0 < cout" "h * w = cout"
  shows "\<exists>t. PointwiseSpatialAttention_forward W m (fst (PointwiseSpatialAttention_init cin cout k)) x
            = Inr t \<and> shape t = [n, 2 * 512, h, w]"
proof -
  have "\<exists>t. AttentionGeneration_forward W m (fst (AttentionGeneration_init cin 512 cout k)) x = Inr t
          \<and> shape t = [n, 512, h, w]"
    by (rule AttentionGeneration_forward_ok) (use assms in simp_all)
  then obtain cf where cf: "AttentionGeneration_forward W m (fst (AttentionGeneration_init cin 512 cout k)) x = Inr cf"
    and shcf: "shape cf = [n, 512, h, w]" by (elim exE conjE)
  have "\<exists>t. AttentionGeneration_forward W m (fst (AttentionGeneration_init cin 512 cout (k + 3))) x = Inr t
          \<and> shape t = [n, 512, h, w]"
    by (rule AttentionGeneration_forward_ok) (use assms in simp_all)
  then obtain df where df: "AttentionGeneration_forward W m (fst (AttentionGeneration_init cin 512 cout (k + 3))) x = Inr df"
    and shdf: "shape df = [n, 512, h, w]" by (elim exE conjE)
  from cat_dim1_rank4 [OF shcf shdf] obtain t where t: "cat_dim1 cf df = Inr t"
    and sht0: "shape t = [n, 512 + 512, h, w]" by (elim exE conjE)
  have "PointwiseSpatialAttention_forward W m (fst (PointwiseSpatialAttention_init cin cout k)) x = Inr t"
    by (simp add: PointwiseSpatialAttention_forward_def PointwiseSpatialAttention_init_simps cf df t)
  moreover from sht0 have "shape t = [n, 2 * 512, h, w]" by simp
  ultimately show ?thesis by (intro exI conjI)
qed

lemma PSAHead_pipeline:
  assumes "shape x = [n, 2048, h, w]" "0 < n" "h * w = 3600" "0 < ncls"
  shows "\<exists>g f ct p d out.
     PointwiseSpatialAttention_forward W m (psa (fst (PSAHead_init ncls k))) x = Inr g \<and>
     shape g = [n, 1024, h, w] \<and>
     ConvBNReLU_forward W m (conv_post (fst (PSAHead_init ncls k))) g = Inr f \<and>
     shape f = [n, 2048, h, w] \<and>
     cat_dim1 x f = Inr ct \<and> shape ct = [n, 4096, h, w] \<and>
     ConvBNReLU_forward W m (project0 (fst (PSAHead_init ncls k))) ct = Inr p \<and>
     kernel_size (project0 (fst (PSAHead_init ncls k))) = 3 \<and> shape p = [n, 512, h, w] \<and>
     Dropout2d (1 / 10) m keep p = Inr d \<and> shape d = [n, 512, h, w] \<and>
     Conv2d_forward W m (project2 (fst (PSAHead_init ncls k))) d = Inr out \<and>
     kernel_size (project2 (fst (PSAHead_init ncls k))) = 1 \<and> shape out = [n, ncls, h, w] \<and>
     PSAHead_forward W m keep (fst (PSAHead_init ncls k)) x = Inr out"
proof -
  let ?H = "fst (PSAHead_init ncls k)"
  have hpos: "0 < h" "0 < w" using assms(3) by (auto intro: Nat.gr0I)
  have c3600: "(0::nat) < 3600" by simp
  from PointwiseSpatialAttention_forward_ok [OF assms(1,2) c3600 assms(3), of W m k]
  obtain g where g: "PointwiseSpatialAttention_forward W m (psa ?H) x = Inr g"
    and shg0: "shape g = [n, 2 * 512, h, w]"
    by (auto simp: PSAHead_init_simps)
  from shg0 have shg: "shape g = [n, 1024, h, w]" by simp
  have "\<exists>y. ConvBNReLU_forward W m (conv_post ?H) g = Inr y \<and>
           shape y = [n, out_channels (conv_post ?H), h, w]"
    by (rule conv_1x1_forward(1)) (simp_all add: PSAHead_init_simps shg hpos)
  then obtain f where f: "ConvBNReLU_forward W m (conv_post ?H) g = Inr f"
    and shf: "shape f = [n, 2048, h, w]" by (auto simp: PSAHead_init_simps)
  from cat_dim1_rank4 [OF assms(1) shf] obtain ct where ct: "cat_dim1 x f = Inr ct"
    and shct0: "shape ct = [n, 2048 + 2048, h, w]" by (elim exE conjE)
  from shct0 have shct: "shape ct = [n, 4096, h, w]" by simp
  have p0: "ConvBNReLU_forward W m (project0 ?H) ct =
      Inr \<lparr>shape = [n, 512, h, w], storage = (\<lambda>off. max 0 (W (slot (project0 ?H)) m ct off))\<rparr>"
    using hpos by (simp add: ConvBNReLU_forward_def shct conv_shape_3x3 PSAHead_init_simps)
  then obtain p where p: "ConvBNReLU_forward W m (project0 ?H) ct = Inr p"
    and shp: "shape p = [n, 512, h, w]" by simp
  from Dropout2d_rank4 [OF shp] obtain d where d: "Dropout2d (1 / 10) m keep p = Inr d"
    and shd: "shape d = [n, 512, h, w]" by blast
  have "\<exists>y. Conv2d_forward W m (project2 ?H) d = Inr y \<and>
           shape y = [n, out_channels (project2 ?H), h, w]"
    by (rule conv_1x1_forward(2)) (simp_all add: PSAHead_init_simps shd hpos assms(4))
  then obtain out where out: "Conv2d_forward W m (project2 ?H) d = Inr out"
    and shout: "shape out = [n, ncls, h, w]" by (auto simp: PSAHead_init_simps)
  have k3: "kernel_size (project0 ?H) = 3" and k1: "kernel_size (project2 ?H) = 1"
    by (simp_all add: PSAHead_init_simps)
  have pp: "project1_p ?H = 1 / 10" by (simp add: PSAHead_init_simps)
  have fwd: "PSAHead_forward W m keep ?H x = Inr out"
    by (simp add: PSAHead_forward_def PSAHead_project_def g f ct p pp d out)
  from g shg f shf ct shct p k3 shp d shd out k1 shout fwd show ?thesis
    by (intro exI conjI)
qed

lemma PSAHead_forward_InrD:
  assumes "PSAHead_forward W m keep (fst (PSAHead_init ncls k)) x = Inr out"
  shows "\<exists>n h w. shape x = [n, 2048, h, w] \<and> 0 < n \<and> h * w = 3600 \<and> 0 < ncls"
proof -
  let ?H = "fst (PSAHead_init ncls k)"
  from assms obtain g where
    "PointwiseSpatialAttention_forward W m (fst (PointwiseSpatialAttention_init 2048 3600 k)) x = Inr g"
    by (auto simp: PSAHead_forward_def bindE_Inr_iff PSAHead_init_simps)
  from PointwiseSpatialAttention_forward_InrD [OF this] obtain n h w where
    x: "shape x = [n, 2048, h, w]" "0 < n" "h * w = 3600" by blast
  from assms obtain d where "Conv2d_forward W m (project2 ?H) d = Inr out"
    by (auto simp: PSAHead_forward_def PSAHead_project_def bindE_Inr_iff)
  then obtain s' where "conv_shape (project2 ?H) (shape d) = Inr s'"
    by (auto simp: Conv2d_forward_def bindE_Inr_iff)
  from conv_shape_Inr [OF this] have "0 < ncls" by (auto simp: PSAHead_init_simps)
  with x show ?thesis by blast
qed

lemma Dropout2d_inference: "Dropout2d p Inference keep x = Inr x"
  by (simp add: Dropout2d_def)

lemma Dropout2d_training_element:
  assumes "Dropout2d p Training keep x = Inr d" "shape x = [n, c, h, w]"
    "ch < c" "y < h" "xx < w"
  shows "at4 d b ch y xx = (if keep (b * c + ch) then at4 x b ch y xx / (1 - p) else 0)"
proof -
  have d: "d = \<lparr>shape = [n, c, h, w],
                storage = (\<lambda>off. if keep (off div (h * w))
                                  then storage x off / (1 - p) else 0)\<rparr>"
    using assms(1,2) by (simp add: Dropout2d_def)
  have idx: "((b * c + ch) * h + y) * w + xx = (b * c + ch) * (h * w) + (y * w + xx)"
    by (simp add: algebra_simps)
  have lt: "y * w + xx < h * w" using assms(4,5) by (rule lt_block)
  have nz: "h * w \<noteq> 0" using assms(4,5) by auto
  have "((b * c + ch) * (h * w) + (y * w + xx)) div (h * w) = b * c + ch + (y * w + xx) div (h * w)"
    using nz by (rule div_mult_self3)
  with lt have dv: "((b * c + ch) * (h * w) + (y * w + xx)) div (h * w) = b * c + ch" by simp
  show ?thesis
    unfolding at4_def by (simp only: d assms(2) tensor.simps nth_Cons_0 nth_Cons_Suc One_nat_def
        numeral_2_eq_2 numeral_3_eq_3 idx dv)
qed

lemma ConvBNReLU_nonneg:
  "ConvBNReLU_forward W m L x = Inr y \<Longrightarrow> 0 \<le> storage y off"
  by (auto simp: ConvBNReLU_forward_def bindE_Inr_iff)

text \<open>
  C6. On a 2048-channel feature map \<open>_PSAHead.forward\<close> returns for every non-empty batch
  whose spatial size has 3600 positions (and nclass > 0), and whenever it returns it has
  computed: the pointwise spatial attention output (1024 channels); the fusion
  convolution block back to 2048 channels (non-negative after its activation); the
  concatenation along channels, whose first 2048 channels are the original input and
  whose last 2048 are the fused map (4096 channels); the 3x3 convolution block to 512
  channels; the dropout with probability 1/10, which in inference mode changes nothing
  and in training mode zeroes the masked channels and divides the kept ones by 9/10; and
  the 1x1 convolution to nclass channels, all at the input's spatial size.
\<close>

theorem psahead_forward_pipeline:
  assumes "shape x = [n, 2048, h, w]"
  shows "(0 < n \<and> 0 < ncls \<and> h * w = 3600 \<longrightarrow>
            (\<exists>out. PSAHead_forward W m keep (fst (PSAHead_init ncls k)) x = Inr out \<and>
                   shape out = [n, ncls, h, w]))
       \<and> (\<forall>out. PSAHead_forward W m keep (fst (PSAHead_init ncls k)) x = Inr out \<longrightarrow>
            (\<exists>g f ct p d.
               PointwiseSpatialAttention_forward W m (psa (fst (PSAHead_init ncls k))) x = Inr g \<and>
               shape g = [n, 1024, h, w] \<and>
               ConvBNReLU_forward W m (conv_post (fst (PSAHead_init ncls k))) g = Inr f \<and>
               shape f = [n, 2048, h, w] \<and> (\<forall>off. 0 \<le> storage f off) \<and>
               cat_dim1 x f = Inr ct \<and> shape ct = [n, 4096, h, w] \<and>
               (\<forall>b ch y xx. ch < 4096 \<longrightarrow> y < h \<longrightarrow> xx < w \<longrightarrow>
                  at4 ct b ch y xx
                    = (if ch < 2048 then at4 x b ch y xx else at4 f b (ch - 2048) y xx)) \<and>
               ConvBNReLU_forward W m (project0 (fst (PSAHead_init ncls k))) ct = Inr p \<and>
               kernel_size (project0 (fst (PSAHead_init ncls k))) = 3 \<and>
               shape p = [n, 512, h, w] \<and> (\<forall>off. 0 \<le> storage p off) \<and>
               Dropout2d (1 / 10) m keep p = Inr d \<and> shape d = [n, 512, h, w] \<and>
               (m = Inference \<longrightarrow> d = p) \<and>
               (m = Training \<longrightarrow>
                  (\<forall>b ch y xx. ch < 512 \<longrightarrow> y < h \<longrightarrow> xx < w \<longrightarrow>
                     at4 d b ch y xx
                       = (if keep (b * 512 + ch) then at4 p b ch y xx / (1 - 1 / 10) else 0))) \<and>
               Conv2d_forward W m (project2 (fst (PSAHead_init ncls k))) d = Inr out \<and>
               kernel_size (project2 (fst (PSAHead_init ncls k))) = 1 \<and>
               shape out = [n, ncls, h, w]))"
proof (intro conjI allI impI)
  assume "0 < n \<and> 0 < ncls \<and> h * w = 3600"
  then have "0 < n" "h * w = 3600" "0 < ncls" by simp_all
  from PSAHead_pipeline [OF assms this, of W m k keep]
  show "\<exists>out. PSAHead_forward W m keep (fst (PSAHead_init ncls k)) x = Inr out \<and>
                   shape out = [n, ncls, h, w]"
    by (elim exE conjE) (intro exI conjI)
next
  fix out
  let ?H = "fst (PSAHead_init ncls k)"
  assume out: "PSAHead_forward W m keep ?H x = Inr out"
  from PSAHead_forward_InrD [OF out] assms have "0 < n" "h * w = 3600" "0 < ncls" by auto
  from PSAHead_pipeline [OF assms this, of W m k keep]
  obtain g f ct p d out' where
    g: "PointwiseSpatialAttention_forward W m (psa ?H) x = Inr g" "shape g = [n, 1024, h, w]"
    and f: "ConvBNReLU_forward W m (conv_post ?H) g = Inr f" and shf: "shape f = [n, 2048, h, w]"
    and ct: "cat_dim1 x f = Inr ct" and shct: "shape ct = [n, 4096, h, w]"
    and p: "ConvBNReLU_forward W m (project0 ?H) ct = Inr p"
    and k3: "kernel_size (project0 ?H) = 3" and shp: "shape p = [n, 512, h, w]"
    and d: "Dropout2d (1 / 10) m keep p = Inr d" and shd: "shape d = [n, 512, h, w]"
    and b: "Conv2d_forward W m (project2 ?H) d = Inr out'"
       "kernel_size (project2 ?H) = 1"
       "shape out' = [n, ncls, h, w]"
    and c: "PSAHead_forward W m keep ?H x = Inr out'"
    by (elim exE conjE)
  from c out have oo: "out' = out" by simp
  have nf: "\<forall>off. 0 \<le> storage f off" using ConvBNReLU_nonneg [OF f] by blast
  have np: "\<forall>off. 0 \<le> storage p off" using ConvBNReLU_nonneg [OF p] by blast
  from cat_dim1_rank4 [OF assms shf] ct
  have cel0: "\<forall>bi ch y xx. ch < 2048 + 2048 \<longrightarrow> y < h \<longrightarrow> xx < w \<longrightarrow>
              at4 ct bi ch y xx = (if ch < 2048 then at4 x bi ch y xx else at4 f bi (ch - 2048) y xx)"
    by auto
  have cel: "\<forall>b ch y xx. ch < 4096 \<longrightarrow> y < h \<longrightarrow> xx < w \<longrightarrow>
                  at4 ct b ch y xx
                    = (if ch < 2048 then at4 x b ch y xx else at4 f b (ch - 2048) y xx)"
    using cel0 by simp
  have di: "m = Inference \<longrightarrow> d = p" using d by (auto simp: Dropout2d_inference)
  have dt: "m = Training \<longrightarrow>
                  (\<forall>b ch y xx. ch < 512 \<longrightarrow> y < h \<longrightarrow> xx < w \<longrightarrow>
                     at4 d b ch y xx
                       = (if keep (b * 512 + ch) then at4 p b ch y xx / (1 - 1 / 10) else 0))"
  proof (intro impI allI)
    fix b ch y xx :: nat
    assume "m = Training" and bd: "ch < 512" "y < h" "xx < w"
    with d have "Dropout2d (1 / 10) Training keep p = Inr d" by simp
    from Dropout2d_training_element [OF this shp bd]
    show "at4 d b ch y xx
            = (if keep (b * 512 + ch) then at4 p b ch y xx / (1 - 1 / 10) else 0)" .
  qed
  from g f shf nf ct shct cel p k3 shp np d shd di dt b [unfolded oo]
  show "\<exists>g f ct p d.
               PointwiseSpatialAttention_forward W m (psa ?H) x = Inr g \<and>
               shape g = [n, 1024, h, w] \<and>
               ConvBNReLU_forward W m (conv_post ?H) g = Inr f \<and>
               shape f = [n, 2048, h, w] \<and> (\<forall>off. 0 \<le> storage f off) \<and>
               cat_dim1 x f = Inr ct \<and> shape ct = [n, 4096, h, w] \<and>
               (\<forall>b ch y xx. ch < 4096 \<longrightarrow> y < h \<longrightarrow> xx < w \<longrightarrow>
                  at4 ct b ch y xx
                    = (if ch < 2048 then at4 x b ch y xx else at4 f b (ch - 2048) y xx)) \<and>
               ConvBNReLU_forward W m (project0 ?H) ct = Inr p \<and>
               kernel_size (project0 ?H) = 3 \<and>
               shape p = [n, 512, h, w] \<and> (\<forall>off. 0 \<le> storage p off) \<and>
               Dropout2d (1 / 10) m keep p = Inr d \<and> shape d = [n, 512, h, w] \<and>
               (m = Inference \<longrightarrow> d = p) \<and>
               (m = Training \<longrightarrow>
                  (\<forall>b ch y xx. ch < 512 \<longrightarrow> y < h \<longrightarrow> xx < w \<longrightarrow>
                     at4 d b ch y xx
                       = (if keep (b * 512 + ch) then at4 p b ch y xx / (1 - 1 / 10) else 0))) \<and>
               Conv2d_forward W m (project2 ?H) d = Inr out \<and>
               kernel_size (project2 ?H) = 1 \<and>
               shape out = [n, ncls, h, w]"
    by (intro exI [of _ g] exI [of _ f] exI [of _ ct] exI [of _ p] exI [of _ d] conjI)
qed

theorem psahead_forward_pipeline_witness:
  "\<exists>out g f ct p d.
     PSAHead_forward zero_weights Training (\<lambda>i. i \<noteq> 3) (fst (PSAHead_init 21 0))
        (zeros [1, 2048, 60, 60]) = Inr out \<and>
     PointwiseSpatialAttention_forward zero_weights Training (psa (fst (PSAHead_init 21 0)))
        (zeros [1, 2048, 60, 60]) = Inr g \<and> shape g = [1, 1024, 60, 60] \<and>
     ConvBNReLU_forward zero_weights Training (conv_post (fst (PSAHead_init 21 0))) g = Inr f \<and>
     shape f = [1, 2048, 60, 60] \<and>
     cat_dim1 (zeros [1, 2048, 60, 60]) f = Inr ct \<and> shape ct = [1, 4096, 60, 60] \<and>
     at4 ct 0 5 1 2 = at4 (zeros [1, 2048, 60, 60]) 0 5 1 2 \<and>
     at4 ct 0 3000 1 2 = at4 f 0 (3000 - 2048) 1 2 \<and>
     ConvBNReLU_forward zero_weights Training (project0 (fst (PSAHead_init 21 0))) ct = Inr p \<and>
     shape p = [1, 512, 60, 60] \<and>
     Dropout2d (1 / 10) Training (\<lambda>i. i \<noteq> 3) p = Inr d \<and>
     at4 d 0 3 1 2 = 0 \<and> at4 d 0 4 1 2 = at4 p 0 4 1 2 / (1 - 1 / 10) \<and>
     Conv2d_forward zero_weights Training (project2 (fst (PSAHead_init 21 0))) d = Inr out \<and>
     shape out = [1, 21, 60, 60]"
proof -
  let ?x = "zeros [1, 2048, 60, 60]"
  let ?H = "fst (PSAHead_init 21 0)"
  let ?keep = "\<lambda>i::nat. i \<noteq> 3"
  have sx: "shape ?x = [1, 2048, 60, 60]" by (rule shape_zeros)
  note T = psahead_forward_pipeline [OF sx, where ncls = 21 and W = zero_weights
      and m = Training and keep = ?keep and k = 0]
  have pre: "(0::nat) < 1 \<and> (0::nat) < 21 \<and> (60::nat) * 60 = 3600" by simp
  from T [THEN conjunct1, THEN mp, OF pre] obtain out where
    out: "PSAHead_forward zero_weights Training ?keep ?H ?x = Inr out"
    by (elim exE conjE)
  from T [THEN conjunct2, THEN spec, THEN mp, OF out]
  obtain g f ct p d where
    a: "PointwiseSpatialAttention_forward zero_weights Training (psa ?H) ?x = Inr g"
       "shape g = [1, 1024, 60, 60]"
       "ConvBNReLU_forward zero_weights Training (conv_post ?H) g = Inr f"
       "shape f = [1, 2048, 60, 60]"
       "cat_dim1 ?x f = Inr ct" "shape ct = [1, 4096, 60, 60]"
    and cel: "\<forall>b ch y xx. ch < 4096 \<longrightarrow> y < 60 \<longrightarrow> xx < 60 \<longrightarrow>
                  at4 ct b ch y xx
                    = (if ch < 2048 then at4 ?x b ch y xx else at4 f b (ch - 2048) y xx)"
    and b: "ConvBNReLU_forward zero_weights Training (project0 ?H) ct = Inr p"
       "shape p = [1, 512, 60, 60]"
       "Dropout2d (1 / 10) Training ?keep p = Inr d"
    and dt: "Training = Training \<longrightarrow>
                  (\<forall>b ch y xx. ch < 512 \<longrightarrow> y < 60 \<longrightarrow> xx < 60 \<longrightarrow>
                     at4 d b ch y xx
                       = (if ?keep (b * 512 + ch) then at4 p b ch y xx / (1 - 1 / 10) else 0))"
    and c: "Conv2d_forward zero_weights Training (project2 ?H) d = Inr out"
       "shape out = [1, 21, 60, 60]"
    by (elim exE conjE)
  have c1: "at4 ct 0 5 1 2 = (if (5::nat) < 2048 then at4 ?x 0 5 1 2 else at4 f 0 (5 - 2048) 1 2)"
    by (rule cel [rule_format]) simp_all
  have c2: "at4 ct 0 3000 1 2
      = (if (3000::nat) < 2048 then at4 ?x 0 3000 1 2 else at4 f 0 (3000 - 2048) 1 2)"
    by (rule cel [rule_format]) simp_all
  have d1: "at4 d 0 3 1 2 = (if ?keep (0 * 512 + 3) then at4 p 0 3 1 2 / (1 - 1 / 10) else 0)"
    by (rule dt [rule_format]) simp_all
  have d2: "at4 d 0 4 1 2 = (if ?keep (0 * 512 + 4) then at4 p 0 4 1 2 / (1 - 1 / 10) else 0)"
    by (rule dt [rule_format]) simp_all
  from c1 have c1': "at4 ct 0 5 1 2 = at4 ?x 0 5 1 2" by simp
  from c2 have c2': "at4 ct 0 3000 1 2 = at4 f 0 (3000 - 2048) 1 2" by simp
  from d1 have d1': "at4 d 0 3 1 2 = 0" by simp
  from d2 have d2': "at4 d 0 4 1 2 = at4 p 0 4 1 2 / (1 - 1 / 10)" by simp
  from out a c1' c2' b d1' d2' c show ?thesis by (intro exI conjI)
qed

section \<open>Properties of PSANet\<close>


lemma PSANet_init_InrD:
  assumes "PSANet_init ncls backbone ax k = Inr (net, k')"
  shows "net = \<lparr>nclass = ncls, aux = ax, pretrained = k, head = fst (PSAHead_init ncls (k + 2)),
                auxlayer = (if ax then Some \<lparr>fcn_in_channels = 1024, fcn_channels = ncls,
                                              fcn_slot = k + 11\<rparr> else None),
                exclusive = (if ax then [''head'', ''auxlayer''] else [''head''])\<rparr>
         \<and> k' = (if ax then k + 12 else k + 11)
         \<and> (backbone = ''resnet50'' \<or> backbone = ''resnet101'' \<or> backbone = ''resnet152'')"
  using assms
  by (auto simp: PSANet_init_def SegBaseModel_init_def FCNHead_init_def split_beta Let_def
      PSAHead_init_simps(6) split: if_splits)

lemma PSANet_init_ok:
  assumes "backbone = ''resnet50'' \<or> backbone = ''resnet101'' \<or> backbone = ''resnet152''"
  shows "\<exists>net k'. PSANet_init ncls backbone ax k = Inr (net, k')"
  using assms
  by (auto simp: PSANet_init_def SegBaseModel_init_def FCNHead_init_def split_beta Let_def)

lemma interpolate_bilinear_ok:
  assumes "shape y = [n, c, hin, win]" "0 < c" "0 < hin" "0 < win" "0 < h" "0 < w"
  shows "\<exists>p. interpolate_bilinear y [h, w] = Inr p \<and> shape p = [n, c, h, w]"
  using assms by (simp add: interpolate_bilinear_def)

lemma interpolate_bilinear_InrD:
  assumes "interpolate_bilinear y sz = Inr p" "shape y = [n, c, hin, win]"
  shows "\<exists>h w. sz = [h, w] \<and> 0 < c \<and> 0 < hin \<and> 0 < win \<and> 0 < h \<and> 0 < w \<and> shape p = [n, c, h, w]"
  using assms by (auto simp: interpolate_bilinear_def split: list.splits if_splits)

lemma base_forward_rank4:
  "shape x = [n, c, h, w] \<Longrightarrow>
   base_forward W m pre x =
     (if c \<noteq> 3 then Inl (ChannelMismatch 3 c)
      else Inr (\<lparr>shape = [n, 1024, h div backbone_stride, w div backbone_stride],
                 storage = W pre m x\<rparr>,
                \<lparr>shape = [n, 2048, h div backbone_stride, w div backbone_stride],
                 storage = W (Suc pre) m x\<rparr>))"
  by (simp add: base_forward_def)

lemma base_forward_InrD:
  assumes "base_forward W m pre x = Inr (c3, c4)"
  shows "\<exists>n h w. shape x = [n, 3, h, w] \<and>
           shape c3 = [n, 1024, h div backbone_stride, w div backbone_stride] \<and>
           shape c4 = [n, 2048, h div backbone_stride, w div backbone_stride]"
  using assms by (auto simp: base_forward_def split: list.splits if_splits)

lemma FCNHead_forward_ok:
  "shape x = [n, fcn_in_channels L, h, w] \<Longrightarrow>
     \<exists>a. FCNHead_forward W m L x = Inr a \<and> shape a = [n, fcn_channels L, h, w]"
  by (simp add: FCNHead_forward_def)

lemma PSANet_forward_InrD:
  assumes init: "PSANet_init ncls backbone ax k = Inr (net, k')"
    and fwd: "PSANet_forward W m keep net x = Inr r"
  shows "\<exists>n h w c3 c4 y p.
           shape x = [n, 3, h, w] \<and>
           base_forward W m (pretrained net) x = Inr (c3, c4) \<and>
           shape c3 = [n, 1024, h div backbone_stride, w div backbone_stride] \<and>
           shape c4 = [n, 2048, h div backbone_stride, w div backbone_stride] \<and>
           PSAHead_forward W m keep (head net) c4 = Inr y \<and>
           shape y = [n, ncls, h div backbone_stride, w div backbone_stride] \<and>
           interpolate_bilinear y [h, w] = Inr p \<and> shape p = [n, ncls, h, w] \<and>
           0 < n \<and> (h div backbone_stride) * (w div backbone_stride) = 3600 \<and>
           (if ax
            then (\<exists>al a q. auxlayer net = Some al \<and> FCNHead_forward W m al c3 = Inr a \<and>
                    shape a = [n, ncls, h div backbone_stride, w div backbone_stride] \<and>
                    interpolate_bilinear a [h, w] = Inr q \<and> shape q = [n, ncls, h, w] \<and>
                    r = Tuple [p, q])
            else r = Tensor p)"
proof -
  from PSANet_init_InrD [OF init] have
    hd: "head net = fst (PSAHead_init ncls (k + 2))" and ax: "aux net = ax"
    and al: "auxlayer net = (if ax then Some \<lparr>fcn_in_channels = 1024, fcn_channels = ncls,
                                              fcn_slot = k + 11\<rparr> else None)"
    by simp_all
  from fwd obtain cc where base0: "base_forward W m (pretrained net) x = Inr cc"
    by (auto simp: PSANet_forward_def Let_def bindE_Inr_iff)
  obtain c3 c4 where cc: "cc = (c3, c4)" by (cases cc)
  note base = base0 [unfolded cc]
  from base_forward_InrD [OF base] obtain n h w where x: "shape x = [n, 3, h, w]"
    and shc3: "shape c3 = [n, 1024, h div backbone_stride, w div backbone_stride]"
    and shc4: "shape c4 = [n, 2048, h div backbone_stride, w div backbone_stride]"
    by blast
  have sz: "drop 2 (shape x) = [h, w]" by (simp add: x)
  from fwd obtain y where y: "PSAHead_forward W m keep (head net) c4 = Inr y"
    by (auto simp: PSANet_forward_def Let_def bindE_Inr_iff base)
  from fwd obtain p where p: "interpolate_bilinear y [h, w] = Inr p"
    by (auto simp: PSANet_forward_def Let_def bindE_Inr_iff base y sz)
  have rest: "(if ax then
          (case auxlayer net of
             None \<Rightarrow> Inl AttributeError
           | Some al \<Rightarrow>
               bindE (FCNHead_forward W m al c3) (\<lambda>auxout.
               bindE (interpolate_bilinear auxout [h, w]) (\<lambda>auxout'.
                 Inr (Tuple [p, auxout']))))
        else Inr (Tensor p)) = Inr r"
    using fwd by (auto simp add: PSANet_forward_def Let_def base y sz p ax
        split: if_splits option.splits)
  from PSAHead_forward_InrD [OF y [unfolded hd]] shc4
  have n: "0 < n" and hw: "(h div backbone_stride) * (w div backbone_stride) = 3600"
    and c: "0 < ncls" by auto
  from PSAHead_pipeline [OF shc4 n hw c, of W m "k + 2" keep] y
  have shy: "shape y = [n, ncls, h div backbone_stride, w div backbone_stride]"
    by (auto simp: hd)
  from interpolate_bilinear_InrD [OF p shy] have shp: "shape p = [n, ncls, h, w]" by simp
  have tail: "if ax
            then (\<exists>al a q. auxlayer net = Some al \<and> FCNHead_forward W m al c3 = Inr a \<and>
                    shape a = [n, ncls, h div backbone_stride, w div backbone_stride] \<and>
                    interpolate_bilinear a [h, w] = Inr q \<and> shape q = [n, ncls, h, w] \<and>
                    r = Tuple [p, q])
            else r = Tensor p"
  proof (cases ax)
    case False
    with rest show ?thesis by simp
  next
    case True
    let ?al = "\<lparr>fcn_in_channels = 1024, fcn_channels = ncls, fcn_slot = k + 11\<rparr>"
    from True al have al': "auxlayer net = Some ?al" by simp
    from rest True al' obtain a q where a: "FCNHead_forward W m ?al c3 = Inr a"
      and q: "interpolate_bilinear a [h, w] = Inr q" and r: "r = Tuple [p, q]"
      by (auto simp: bindE_Inr_iff)
    from FCNHead_forward_ok [of c3 n ?al _ _ W m] shc3 a
    have sha: "shape a = [n, ncls, h div backbone_stride, w div backbone_stride]" by auto
    from interpolate_bilinear_InrD [OF q sha] have "shape q = [n, ncls, h, w]" by simp
    with True al' a sha q r show ?thesis by auto
  qed
  from x base shc3 shc4 y shy p shp n hw tail show ?thesis by blast
qed

lemma PSANet_forward_ok:
  assumes init: "PSANet_init ncls backbone ax k = Inr (net, k')"
    and x: "shape x = [n, 3, h, w]" and n: "0 < n" and c: "0 < ncls"
    and hw: "(h div backbone_stride) * (w div backbone_stride) = 3600"
  shows "\<exists>r p. PSANet_forward W m keep net x = Inr r \<and> primary r = Some p \<and>
           shape p = [n, ncls, h, w] \<and>
           (if ax then (\<exists>q. r = Tuple [p, q] \<and> shape q = [n, ncls, h, w]) else r = Tensor p)"
proof -
  from PSANet_init_InrD [OF init] have
    hd: "head net = fst (PSAHead_init ncls (k + 2))" and ax: "aux net = ax"
    and al: "auxlayer net = (if ax then Some \<lparr>fcn_in_channels = 1024, fcn_channels = ncls,
                                              fcn_slot = k + 11\<rparr> else None)"
    by simp_all
  let ?c3 = "\<lparr>shape = [n, 1024, h div backbone_stride, w div backbone_stride],
              storage = W (pretrained net) m x\<rparr>"
  let ?c4 = "\<lparr>shape = [n, 2048, h div backbone_stride, w div backbone_stride],
              storage = W (Suc (pretrained net)) m x\<rparr>"
  have base: "base_forward W m (pretrained net) x = Inr (?c3, ?c4)"
    by (simp add: base_forward_rank4 [OF x])
  have shc4: "shape ?c4 = [n, 2048, h div backbone_stride, w div backbone_stride]" by simp
  have shc3: "shape ?c3 = [n, fcn_in_channels \<lparr>fcn_in_channels = 1024, fcn_channels = ncls,
       fcn_slot = k + 11\<rparr>, h div backbone_stride, w div backbone_stride]" by simp
  have dpos: "0 < h div backbone_stride" "0 < w div backbone_stride"
    using hw by (auto intro: Nat.gr0I)
  then have hpos: "0 < h" "0 < w" by (auto intro: Nat.gr0I)
  from PSAHead_pipeline [OF shc4 n hw c, of W m "k + 2" keep]
  obtain y where y: "PSAHead_forward W m keep (head net) ?c4 = Inr y"
    and shy: "shape y = [n, ncls, h div backbone_stride, w div backbone_stride]"
    by (auto simp: hd)
  from interpolate_bilinear_ok [OF shy c dpos hpos] obtain p where
    p: "interpolate_bilinear y [h, w] = Inr p" and shp: "shape p = [n, ncls, h, w]"
    by blast
  have sz: "drop 2 (shape x) = [h, w]" by (simp add: x)
  show ?thesis
  proof (cases ax)
    case False
    have "PSANet_forward W m keep net x = Inr (Tensor p)"
      using False by (simp add: PSANet_forward_def Let_def base y sz p ax)
    with shp False show ?thesis by (simp add: primary_def)
  next
    case True
    let ?al = "\<lparr>fcn_in_channels = 1024, fcn_channels = ncls, fcn_slot = k + 11\<rparr>"
    from True al have al': "auxlayer net = Some ?al" by simp
    from FCNHead_forward_ok [OF shc3, of W m] obtain a where
      a: "FCNHead_forward W m ?al ?c3 = Inr a"
      and sha: "shape a = [n, ncls, h div backbone_stride, w div backbone_stride]"
      by auto
    from interpolate_bilinear_ok [OF sha c dpos hpos] obtain q where
      q: "interpolate_bilinear a [h, w] = Inr q" and shq: "shape q = [n, ncls, h, w]"
      by blast
    have "PSANet_forward W m keep net x = Inr (Tuple [p, q])"
      using True by (simp add: PSANet_forward_def Let_def base y sz p ax al' a q)
    with shp shq True show ?thesis by (simp add: primary_def)
  qed
qed


lemma src_first: "src_lo insz outsz 0 = 0" "src_frac insz outsz 0 = 0"
  by (simp_all add: src_lo_def src_frac_def)

lemma src_last:
  assumes "Suc 0 < outsz"
  shows "src_lo insz outsz (outsz - Suc 0) = insz - Suc 0"
    "src_hi insz outsz (outsz - Suc 0) = insz - Suc 0"
    "src_frac insz outsz (outsz - Suc 0) = 0"
proof -
  show lo: "src_lo insz outsz (outsz - Suc 0) = insz - Suc 0"
    using assms by (simp add: src_lo_def)
  show "src_hi insz outsz (outsz - Suc 0) = insz - Suc 0" by (simp add: src_hi_def lo)
  have "real ((outsz - Suc 0) * (insz - Suc 0)) / real (outsz - Suc 0) = real (insz - Suc 0)"
    using assms by simp
  then show "src_frac insz outsz (outsz - Suc 0) = 0" using assms by (simp add: src_frac_def lo)
qed

lemma interpolate_bilinear_storage:
  assumes "interpolate_bilinear y [h, w] = Inr p" "shape y = [n, c, hin, win]"
  shows "0 < h \<and> 0 < w \<and> shape p = [n, c, h, w] \<and>
     storage p = (\<lambda>off.
       let ox = off mod w; oy = (off div w) mod h; pl = off div (h * w);
          y0 = src_lo hin h oy; y1 = src_hi hin h oy;
          x0 = src_lo win w ox; x1 = src_hi win w ox;
          ly = src_frac hin h oy; lx = src_frac win w ox;
          v = (\<lambda>yy xx. storage y ((pl * hin + yy) * win + xx))
       in (1 - ly) * ((1 - lx) * v y0 x0 + lx * v y0 x1)
          + ly * ((1 - lx) * v y1 x0 + lx * v y1 x1))"
proof (cases "c = 0 \<or> hin = 0 \<or> win = 0 \<or> h = 0 \<or> w = 0")
  case True
  with assms show ?thesis by (simp add: interpolate_bilinear_def)
next
  case False
  with assms(1) have "p = \<lparr>shape = [n, c, h, w],
     storage = (\<lambda>off.
       let ox = off mod w; oy = (off div w) mod h; pl = off div (h * w);
          y0 = src_lo hin h oy; y1 = src_hi hin h oy;
          x0 = src_lo win w ox; x1 = src_hi win w ox;
          ly = src_frac hin h oy; lx = src_frac win w ox;
          v = (\<lambda>yy xx. storage y ((pl * hin + yy) * win + xx))
       in (1 - ly) * ((1 - lx) * v y0 x0 + lx * v y0 x1)
          + ly * ((1 - lx) * v y1 x0 + lx * v y1 x1))\<rparr>"
    by (simp add: interpolate_bilinear_def assms(2))
  with False show ?thesis by simp
qed

lemma bilinear_blend_exact:
  "(1 - (0::real)) * ((1 - 0) * a + 0 * b) + 0 * ((1 - 0) * c + 0 * d) = a"
  by simp

lemma interpolate_bilinear_corners:
  assumes p: "interpolate_bilinear y [h, w] = Inr p" and y: "shape y = [n, c, hin, win]"
  shows "at4 p b ch 0 0 = at4 y b ch 0 0"
    and "Suc 0 < h \<Longrightarrow> Suc 0 < w \<Longrightarrow>
           at4 p b ch (h - Suc 0) (w - Suc 0) = at4 y b ch (hin - Suc 0) (win - Suc 0)"
proof -
  from interpolate_bilinear_storage [OF p y]
  have pos: "0 < h" "0 < w" and shp: "shape p = [n, c, h, w]"
    and st: "storage p = (\<lambda>off.
       let ox = off mod w; oy = (off div w) mod h; pl = off div (h * w);
          y0 = src_lo hin h oy; y1 = src_hi hin h oy;
          x0 = src_lo win w ox; x1 = src_hi win w ox;
          ly = src_frac hin h oy; lx = src_frac win w ox;
          v = (\<lambda>yy xx. storage y ((pl * hin + yy) * win + xx))
       in (1 - ly) * ((1 - lx) * v y0 x0 + lx * v y0 x1)
          + ly * ((1 - lx) * v y1 x0 + lx * v y1 x1))"
    by simp_all
  have at_p: "at4 p b ch oy ox =
      (1 - src_frac hin h oy) *
        ((1 - src_frac win w ox) * at4 y b ch (src_lo hin h oy) (src_lo win w ox)
          + src_frac win w ox * at4 y b ch (src_lo hin h oy) (src_hi win w ox))
      + src_frac hin h oy *
        ((1 - src_frac win w ox) * at4 y b ch (src_hi hin h oy) (src_lo win w ox)
          + src_frac win w ox * at4 y b ch (src_hi hin h oy) (src_hi win w ox))"
    if "oy < h" "ox < w" for oy ox
  proof -
    let ?off = "((b * c + ch) * h + oy) * w + ox"
    have m: "?off mod w = ox" using that by simp
    have d1: "(?off div w) mod h = oy" using that by simp
    have d2: "?off div (h * w) = b * c + ch" using that by (rule off_div_block)
    have "at4 p b ch oy ox = storage p ?off" by (simp add: at4_def shp)
    also have "\<dots> =
      (1 - src_frac hin h oy) *
        ((1 - src_frac win w ox) * at4 y b ch (src_lo hin h oy) (src_lo win w ox)
          + src_frac win w ox * at4 y b ch (src_lo hin h oy) (src_hi win w ox))
      + src_frac hin h oy *
        ((1 - src_frac win w ox) * at4 y b ch (src_hi hin h oy) (src_lo win w ox)
          + src_frac win w ox * at4 y b ch (src_hi hin h oy) (src_hi win w ox))"
      unfolding st Let_def m d1 d2 at4_def y by simp
    finally show ?thesis .
  qed
  show "at4 p b ch 0 0 = at4 y b ch 0 0"
    unfolding at_p [OF pos] src_first by (rule bilinear_blend_exact)
  show "at4 p b ch (h - Suc 0) (w - Suc 0) = at4 y b ch (hin - Suc 0) (win - Suc 0)"
    if hw: "Suc 0 < h" "Suc 0 < w"
  proof -
    have lt: "h - Suc 0 < h" "w - Suc 0 < w" using pos by simp_all
    show ?thesis
      unfolding at_p [OF lt] src_last [OF hw(1)] src_last [OF hw(2)] by (rule bilinear_blend_exact)
  qed
qed

lemma tent_cases:
  assumes "0 \<le> l" "l < 1"
  shows "tent (real lo + l - real i) = (if i = lo then 1 - l else if i = Suc lo then l else 0)"
proof -
  consider "i = lo" | "i = Suc lo" | "i < lo" | "Suc lo < i" by linarith
  then show ?thesis
  proof cases
    case 1
    then show ?thesis using assms by (simp add: tent_def)
  next
    case 2
    then show ?thesis using assms by (simp add: tent_def)
  next
    case 3
    then have "real i + 1 \<le> real lo" by linarith
    then have "1 \<le> real lo + l - real i" using assms by linarith
    then show ?thesis using 3 by (simp add: tent_def)
  next
    case 4
    then have "real lo + 2 \<le> real i" by linarith
    then have "real lo + l - real i \<le> - 1" using assms by linarith
    then show ?thesis using 4 by (simp add: tent_def)
  qed
qed

lemma tent_sum:
  assumes "0 \<le> l" "l < 1" "lo < insz" "\<not> lo < insz - 1 \<longrightarrow> l = 0"
  shows "(\<Sum>i<insz. g i * tent (real lo + l - real i))
           = (1 - l) * g lo + l * g (if lo < insz - 1 then lo + 1 else lo)"
proof -
  have "(\<Sum>i<insz. g i * tent (real lo + l - real i))
      = (\<Sum>i<insz. (if i = lo then g i * (1 - l) else 0) + (if i = Suc lo then g i * l else 0))"
    by (rule sum.cong) (simp_all add: tent_cases [OF assms(1,2)])
  also have "\<dots> = (\<Sum>i<insz. if i = lo then g i * (1 - l) else 0)
                  + (\<Sum>i<insz. if i = Suc lo then g i * l else 0)"
    by (rule sum.distrib)
  also have "(\<Sum>i<insz. if i = lo then g i * (1 - l) else 0) = g lo * (1 - l)"
    using assms(3) by (simp add: sum.delta)
  also have "(\<Sum>i<insz. if i = Suc lo then g i * l else 0)
      = (if Suc lo < insz then g (Suc lo) * l else 0)"
    by (simp add: sum.delta)
  finally have e: "(\<Sum>i<insz. g i * tent (real lo + l - real i))
      = g lo * (1 - l) + (if Suc lo < insz then g (Suc lo) * l else 0)" .
  show ?thesis
  proof (cases "lo < insz - 1")
    case True
    then have "Suc lo < insz" by linarith
    with True e show ?thesis by (simp add: mult.commute)
  next
    case False
    with assms(4) have "l = 0" by simp
    with False e show ?thesis by simp
  qed
qed

lemma src_coord_aux:
  assumes "oi < outsz" "0 < insz"
  shows "0 \<le> src_frac insz outsz oi \<and> src_frac insz outsz oi < 1 \<and>
         src_lo insz outsz oi < insz \<and>
         (\<not> src_lo insz outsz oi < insz - 1 \<longrightarrow> src_frac insz outsz oi = 0)"
proof (cases "outsz > 1")
  case False
  then show ?thesis using assms by (simp add: src_frac_def src_lo_def)
next
  case True
  define a where "a = oi * (insz - 1)"
  define d where "d = outsz - 1"
  have d: "0 < d" using True by (simp add: d_def)
  have lo: "src_lo insz outsz oi = a div d"
    using True by (simp add: src_lo_def a_def d_def)
  have "real a / real d = real (a div d) + real (a mod d) / real d"
    by (rule of_nat_of_nat_div_aux)
  then have fr: "src_frac insz outsz oi = real (a mod d) / real d"
    using True by (simp add: src_frac_def src_lo_def a_def d_def)
  have f0: "0 \<le> src_frac insz outsz oi" by (simp add: fr)
  have "a mod d < d" using d by simp
  then have f1: "src_frac insz outsz oi < 1" using d by (simp add: fr)
  have "oi \<le> d" using assms(1) by (simp add: d_def)
  then have ale: "a \<le> d * (insz - 1)" by (simp add: a_def)
  then have "a div d \<le> (d * (insz - 1)) div d" by (rule div_le_mono)
  then have le: "a div d \<le> insz - 1" using d by simp
  then have l1: "src_lo insz outsz oi < insz" using assms(2) by (simp add: lo)
  have l2: "\<not> src_lo insz outsz oi < insz - 1 \<longrightarrow> src_frac insz outsz oi = 0"
  proof
    assume "\<not> src_lo insz outsz oi < insz - 1"
    with le have eq: "a div d = insz - 1" by (simp add: lo)
    have "d * (a div d) \<le> a" by simp
    with eq ale have "a = d * (insz - 1)" by simp
    then have "a mod d = 0" by simp
    then show "src_frac insz outsz oi = 0" by (simp add: fr)
  qed
  from f0 f1 l1 l2 show ?thesis by (intro conjI)
qed

lemma src_coord_eq:
  "aligned_coord insz outsz oi = real (src_lo insz outsz oi) + src_frac insz outsz oi"
  by (simp add: aligned_coord_def src_frac_def src_lo_def)

lemma bilinear_1d:
  assumes "oi < outsz" "0 < insz"
  shows "(\<Sum>i<insz. g i * tent (aligned_coord insz outsz oi - real i))
           = (1 - src_frac insz outsz oi) * g (src_lo insz outsz oi)
             + src_frac insz outsz oi * g (src_hi insz outsz oi)"
proof -
  from src_coord_aux [OF assms] have
    a: "0 \<le> src_frac insz outsz oi" "src_frac insz outsz oi < 1"
       "src_lo insz outsz oi < insz"
       "\<not> src_lo insz outsz oi < insz - 1 \<longrightarrow> src_frac insz outsz oi = 0"
    by simp_all
  show ?thesis
    unfolding src_coord_eq src_hi_def by (rule tent_sum [OF a])
qed

lemma interpolate_bilinear_element:
  assumes p: "interpolate_bilinear y [h, w] = Inr p" and y: "shape y = [n, c, hin, win]"
    and oy: "oy < h" and ox: "ox < w"
  shows "at4 p b ch oy ox =
      (1 - src_frac hin h oy) *
        ((1 - src_frac win w ox) * at4 y b ch (src_lo hin h oy) (src_lo win w ox)
          + src_frac win w ox * at4 y b ch (src_lo hin h oy) (src_hi win w ox))
      + src_frac hin h oy *
        ((1 - src_frac win w ox) * at4 y b ch (src_hi hin h oy) (src_lo win w ox)
          + src_frac win w ox * at4 y b ch (src_hi hin h oy) (src_hi win w ox))"
proof -
  from interpolate_bilinear_storage [OF p y]
  have shp: "shape p = [n, c, h, w]"
    and st: "storage p = (\<lambda>off.
       let ox = off mod w; oy = (off div w) mod h; pl = off div (h * w);
          y0 = src_lo hin h oy; y1 = src_hi hin h oy;
          x0 = src_lo win w ox; x1 = src_hi win w ox;
          ly = src_frac hin h oy; lx = src_frac win w ox;
          v = (\<lambda>yy xx. storage y ((pl * hin + yy) * win + xx))
       in (1 - ly) * ((1 - lx) * v y0 x0 + lx * v y0 x1)
          + ly * ((1 - lx) * v y1 x0 + lx * v y1 x1))"
    by simp_all
  let ?off = "((b * c + ch) * h + oy) * w + ox"
  have m: "?off mod w = ox" using ox by simp
  have d1: "(?off div w) mod h = oy" using oy ox by simp
  have d2: "?off div (h * w) = b * c + ch" using oy ox by (rule off_div_block)
  have "at4 p b ch oy ox = storage p ?off" by (simp add: at4_def shp)
  also have "\<dots> =
      (1 - src_frac hin h oy) *
        ((1 - src_frac win w ox) * at4 y b ch (src_lo hin h oy) (src_lo win w ox)
          + src_frac win w ox * at4 y b ch (src_lo hin h oy) (src_hi win w ox))
      + src_frac hin h oy *
        ((1 - src_frac win w ox) * at4 y b ch (src_hi hin h oy) (src_lo win w ox)
          + src_frac win w ox * at4 y b ch (src_hi hin h oy) (src_hi win w ox))"
    unfolding st Let_def m d1 d2 at4_def y by simp
  finally show ?thesis .
qed

lemma interpolate_bilinear_spec:
  assumes p: "interpolate_bilinear y [h, w] = Inr p" and y: "shape y = [n, c, hin, win]"
    and oy: "oy < h" and ox: "ox < w"
  shows "at4 p b ch oy ox = spec_bilinear y h w b ch oy ox"
proof -
  from interpolate_bilinear_InrD [OF p y] have pos: "0 < hin" "0 < win" by simp_all
  let ?ty = "\<lambda>i. tent (aligned_coord hin h oy - real i)"
  let ?tx = "\<lambda>j. tent (aligned_coord win w ox - real j)"
  let ?G = "\<lambda>i. (1 - src_frac win w ox) * at4 y b ch i (src_lo win w ox)
                 + src_frac win w ox * at4 y b ch i (src_hi win w ox)"
  have inner: "(\<Sum>j<win. at4 y b ch i j * ?tx j) = ?G i" for i
    using ox pos(2) by (rule bilinear_1d)
  have "spec_bilinear y h w b ch oy ox
      = (\<Sum>i<hin. \<Sum>j<win. at4 y b ch i j * ?ty i * ?tx j)"
    by (simp add: spec_bilinear_def y)
  also have "\<dots> = (\<Sum>i<hin. (\<Sum>j<win. at4 y b ch i j * ?tx j) * ?ty i)"
    by (rule sum.cong) (simp_all add: sum_distrib_right sum_distrib_left mult_ac)
  also have "\<dots> = (\<Sum>i<hin. ?G i * ?ty i)"
    by (simp only: inner)
  also have "\<dots> = (1 - src_frac hin h oy) * ?G (src_lo hin h oy)
                  + src_frac hin h oy * ?G (src_hi hin h oy)"
    using oy pos(1) by (rule bilinear_1d)
  also have "\<dots> = at4 p b ch oy ox"
    by (simp only: interpolate_bilinear_element [OF p y oy ox])
  finally show ?thesis by simp
qed

lemma stride_size_gt1:
  assumes "(h div backbone_stride) * (w div backbone_stride) = 3600"
  shows "1 < h" "1 < w"
proof -
  have "0 < h div backbone_stride" "0 < w div backbone_stride"
    using assms by (auto intro: Nat.gr0I)
  then have "backbone_stride \<le> h" "backbone_stride \<le> w"
    by (auto simp: div_greater_zero_iff)
  then show "1 < h" "1 < w" by (simp_all add: backbone_stride_def)
qed

text \<open>
  C7. For a constructed PSANet and an input of shape (N, 3, H, W): \<open>forward\<close> returns when
  N > 0, nclass > 0 and H, W are multiples of the stride with 3600 feature positions; and
  whenever it returns, the result was computed by applying the PSA head to c4 and
  upsampling to the recorded size (H, W), where every element of the upsampled tensor is
  the value at the aligned-corner coordinate of the bilinear (tent function) interpolant
  of the head's output, so that the first and the last corner of each plane are copied.
  The result is the single primary tensor when the auxiliary flag is off, and the ordered
  pair (primary, auxiliary) when it is on, the auxiliary tensor being the auxiliary head
  applied to c3 and upsampled likewise.
\<close>

theorem psanet_forward_structure:
  assumes "PSANet_init ncls backbone ax k = Inr (net, k')" "shape x = [n, 3, h, w]"
  shows "(0 < n \<and> 0 < ncls \<and> backbone_stride dvd h \<and> backbone_stride dvd w \<and>
          (h div backbone_stride) * (w div backbone_stride) = 3600 \<longrightarrow>
            (\<exists>r. PSANet_forward W m keep net x = Inr r))
       \<and> (\<forall>r. PSANet_forward W m keep net x = Inr r \<longrightarrow>
            (\<exists>c3 c4 y p.
               base_forward W m (pretrained net) x = Inr (c3, c4) \<and>
               shape c4 = [n, 2048, h div backbone_stride, w div backbone_stride] \<and>
               PSAHead_forward W m keep (head net) c4 = Inr y \<and>
               interpolate_bilinear y [h, w] = Inr p \<and> shape p = [n, ncls, h, w] \<and>
               (\<forall>b ch oy ox. oy < h \<longrightarrow> ox < w \<longrightarrow>
                  at4 p b ch oy ox = spec_bilinear y h w b ch oy ox) \<and>
               (\<forall>b ch. at4 p b ch 0 0 = at4 y b ch 0 0 \<and>
                  at4 p b ch (h - 1) (w - 1)
                    = at4 y b ch (h div backbone_stride - 1) (w div backbone_stride - 1)) \<and>
               (if ax
                then (\<exists>al a q. auxlayer net = Some al \<and> FCNHead_forward W m al c3 = Inr a \<and>
                        interpolate_bilinear a [h, w] = Inr q \<and> shape q = [n, ncls, h, w] \<and>
                        (\<forall>b ch oy ox. oy < h \<longrightarrow> ox < w \<longrightarrow>
                           at4 q b ch oy ox = spec_bilinear a h w b ch oy ox) \<and>
                        (\<forall>b ch. at4 q b ch 0 0 = at4 a b ch 0 0 \<and>
                           at4 q b ch (h - 1) (w - 1)
                             = at4 a b ch (h div backbone_stride - 1) (w div backbone_stride - 1)) \<and>
                        r = Tuple [p, q])
                else r = Tensor p)))"
proof (intro conjI allI impI)
  assume "0 < n \<and> 0 < ncls \<and> backbone_stride dvd h \<and> backbone_stride dvd w \<and>
          (h div backbone_stride) * (w div backbone_stride) = 3600"
  then have "0 < n" "0 < ncls" "(h div backbone_stride) * (w div backbone_stride) = 3600"
    by simp_all
  from PSANet_forward_ok [OF assms this, of W m keep]
  show "\<exists>r. PSANet_forward W m keep net x = Inr r" by blast
next
  fix r
  assume r: "PSANet_forward W m keep net x = Inr r"
  from PSANet_forward_InrD [OF assms(1) r] assms(2)
  obtain c3 c4 y p where
    base: "base_forward W m (pretrained net) x = Inr (c3, c4)"
    and shc4: "shape c4 = [n, 2048, h div backbone_stride, w div backbone_stride]"
    and y: "PSAHead_forward W m keep (head net) c4 = Inr y"
    and shy: "shape y = [n, ncls, h div backbone_stride, w div backbone_stride]"
    and p: "interpolate_bilinear y [h, w] = Inr p" and shp: "shape p = [n, ncls, h, w]"
    and hw: "(h div backbone_stride) * (w div backbone_stride) = 3600"
    and tail: "if ax
            then (\<exists>al a q. auxlayer net = Some al \<and> FCNHead_forward W m al c3 = Inr a \<and>
                    shape a = [n, ncls, h div backbone_stride, w div backbone_stride] \<and>
                    interpolate_bilinear a [h, w] = Inr q \<and> shape q = [n, ncls, h, w] \<and>
                    r = Tuple [p, q])
            else r = Tensor p"
    by auto
  from stride_size_gt1 [OF hw] have gt: "Suc 0 < h" "Suc 0 < w" by simp_all
  have sp: "\<forall>b ch oy ox. oy < h \<longrightarrow> ox < w \<longrightarrow>
                  at4 p b ch oy ox = spec_bilinear y h w b ch oy ox"
    using interpolate_bilinear_spec [OF p shy] by blast
  have cp: "\<forall>b ch. at4 p b ch 0 0 = at4 y b ch 0 0 \<and>
                  at4 p b ch (h - 1) (w - 1)
                    = at4 y b ch (h div backbone_stride - 1) (w div backbone_stride - 1)"
    using interpolate_bilinear_corners [OF p shy] gt by simp
  have tail': "if ax
                then (\<exists>al a q. auxlayer net = Some al \<and> FCNHead_forward W m al c3 = Inr a \<and>
                        interpolate_bilinear a [h, w] = Inr q \<and> shape q = [n, ncls, h, w] \<and>
                        (\<forall>b ch oy ox. oy < h \<longrightarrow> ox < w \<longrightarrow>
                           at4 q b ch oy ox = spec_bilinear a h w b ch oy ox) \<and>
                        (\<forall>b ch. at4 q b ch 0 0 = at4 a b ch 0 0 \<and>
                           at4 q b ch (h - 1) (w - 1)
                             = at4 a b ch (h div backbone_stride - 1) (w div backbone_stride - 1)) \<and>
                        r = Tuple [p, q])
                else r = Tensor p"
  proof (cases ax)
    case False
    with tail show ?thesis by simp
  next
    case True
    with tail obtain al a q where al: "auxlayer net = Some al"
      and a: "FCNHead_forward W m al c3 = Inr a"
      and sha: "shape a = [n, ncls, h div backbone_stride, w div backbone_stride]"
      and q: "interpolate_bilinear a [h, w] = Inr q" and shq: "shape q = [n, ncls, h, w]"
      and rq: "r = Tuple [p, q]" by auto
    have sq: "\<forall>b ch oy ox. oy < h \<longrightarrow> ox < w \<longrightarrow>
                  at4 q b ch oy ox = spec_bilinear a h w b ch oy ox"
      using interpolate_bilinear_spec [OF q sha] by blast
    have cq: "\<forall>b ch. at4 q b ch 0 0 = at4 a b ch 0 0 \<and>
                  at4 q b ch (h - 1) (w - 1)
                    = at4 a b ch (h div backbone_stride - 1) (w div backbone_stride - 1)"
      using interpolate_bilinear_corners [OF q sha] gt by simp
    from True al a q shq sq cq rq show ?thesis by auto
  qed
  from base shc4 y p shp sp cp tail'
  show "\<exists>c3 c4 y p.
               base_forward W m (pretrained net) x = Inr (c3, c4) \<and>
               shape c4 = [n, 2048, h div backbone_stride, w div backbone_stride] \<and>
               PSAHead_forward W m keep (head net) c4 = Inr y \<and>
               interpolate_bilinear y [h, w] = Inr p \<and> shape p = [n, ncls, h, w] \<and>
               (\<forall>b ch oy ox. oy < h \<longrightarrow> ox < w \<longrightarrow>
                  at4 p b ch oy ox = spec_bilinear y h w b ch oy ox) \<and>
               (\<forall>b ch. at4 p b ch 0 0 = at4 y b ch 0 0 \<and>
                  at4 p b ch (h - 1) (w - 1)
                    = at4 y b ch (h div backbone_stride - 1) (w div backbone_stride - 1)) \<and>
               (if ax
                then (\<exists>al a q. auxlayer net = Some al \<and> FCNHead_forward W m al c3 = Inr a \<and>
                        interpolate_bilinear a [h, w] = Inr q \<and> shape q = [n, ncls, h, w] \<and>
                        (\<forall>b ch oy ox. oy < h \<longrightarrow> ox < w \<longrightarrow>
                           at4 q b ch oy ox = spec_bilinear a h w b ch oy ox) \<and>
                        (\<forall>b ch. at4 q b ch 0 0 = at4 a b ch 0 0 \<and>
                           at4 q b ch (h - 1) (w - 1)
                             = at4 a b ch (h div backbone_stride - 1) (w div backbone_stride - 1)) \<and>
                        r = Tuple [p, q])
                else r = Tensor p)"
    by (intro exI [of _ c3] exI [of _ c4] exI [of _ y] exI [of _ p] conjI)
qed

theorem psanet_forward_structure_witness:
  "\<exists>net k' r c3 c4 y p al a q.
     PSANet_init 19 ''resnet101'' True 0 = Inr (net, k') \<and>
     PSANet_forward zero_weights Inference keep_all net (zeros [1, 3, 480, 480]) = Inr r \<and>
     base_forward zero_weights Inference (pretrained net) (zeros [1, 3, 480, 480]) = Inr (c3, c4) \<and>
     PSAHead_forward zero_weights Inference keep_all (head net) c4 = Inr y \<and>
     interpolate_bilinear y [480, 480] = Inr p \<and> shape p = [1, 19, 480, 480] \<and>
     at4 p 0 3 100 200 = spec_bilinear y 480 480 0 3 100 200 \<and>
     auxlayer net = Some al \<and> FCNHead_forward zero_weights Inference al c3 = Inr a \<and>
     interpolate_bilinear a [480, 480] = Inr q \<and>
     at4 q 0 3 100 200 = spec_bilinear a 480 480 0 3 100 200 \<and> r = Tuple [p, q]"
proof -
  let ?x = "zeros [1, 3, 480, 480]"
  have "\<exists>net k'. PSANet_init 19 ''resnet101'' True 0 = Inr (net, k')"
    by (rule PSANet_init_ok) simp
  then obtain net k' where init: "PSANet_init 19 ''resnet101'' True 0 = Inr (net, k')"
    by (elim exE)
  have sx: "shape ?x = [1, 3, 480, 480]" by (rule shape_zeros)
  note T = psanet_forward_structure [OF init sx, of zero_weights Inference keep_all]
  have pre: "(0::nat) < 1 \<and> (0::nat) < 19 \<and> backbone_stride dvd 480 \<and> backbone_stride dvd 480 \<and>
          (480 div backbone_stride) * (480 div backbone_stride) = 3600"
    by (simp add: backbone_stride_def)
  from T [THEN conjunct1, THEN mp, OF pre] obtain r where
    r: "PSANet_forward zero_weights Inference keep_all net ?x = Inr r" by (elim exE)
  from T [THEN conjunct2, THEN spec, THEN mp, OF r]
  obtain c3 c4 y p al a q where
    f: "base_forward zero_weights Inference (pretrained net) ?x = Inr (c3, c4)"
       "PSAHead_forward zero_weights Inference keep_all (head net) c4 = Inr y"
       "interpolate_bilinear y [480, 480] = Inr p" "shape p = [1, 19, 480, 480]"
    and sp: "\<forall>b ch oy ox. oy < 480 \<longrightarrow> ox < 480 \<longrightarrow>
                  at4 p b ch oy ox = spec_bilinear y 480 480 b ch oy ox"
    and g: "auxlayer net = Some al" "FCNHead_forward zero_weights Inference al c3 = Inr a"
       "interpolate_bilinear a [480, 480] = Inr q"
    and sq: "\<forall>b ch oy ox. oy < 480 \<longrightarrow> ox < 480 \<longrightarrow>
                  at4 q b ch oy ox = spec_bilinear a 480 480 b ch oy ox"
    and rr: "r = Tuple [p, q]"
    by (simp only: if_True) (elim exE conjE)
  have ep: "at4 p 0 3 100 200 = spec_bilinear y 480 480 0 3 100 200"
    by (rule sp [rule_format]) simp_all
  have eq: "at4 q 0 3 100 200 = spec_bilinear a 480 480 0 3 100 200"
    by (rule sq [rule_format]) simp_all
  from init r f ep g eq rr show ?thesis by (intro exI conjI)
qed

lemma PSAHead_forward_cong:
  assumes "\<forall>s. k \<le> s \<and> s < k + 9 \<longrightarrow> W' s = W s"
  shows "PSAHead_forward W' m keep (fst (PSAHead_init ncls k)) x
           = PSAHead_forward W m keep (fst (PSAHead_init ncls k)) x"
proof -
  let ?H = "fst (PSAHead_init ncls k)"
  let ?ca = "fst (AttentionGeneration_init 2048 512 3600 k)"
  let ?da = "fst (AttentionGeneration_init 2048 512 3600 (k + 3))"
  have ca: "AttentionGeneration_forward W' m ?ca = AttentionGeneration_forward W m ?ca"
    by (rule ext, rule AttentionGeneration_forward_cong)
      (use assms in \<open>simp add: AttentionGeneration_init_slots\<close>)
  have da: "AttentionGeneration_forward W' m ?da = AttentionGeneration_forward W m ?da"
    by (rule ext, rule AttentionGeneration_forward_cong)
      (use assms in \<open>simp add: AttentionGeneration_init_slots\<close>)
  have w: "W' (k + 6) = W (k + 6)" "W' (k + 7) = W (k + 7)" "W' (k + 8) = W (k + 8)"
    using assms by simp_all
  have cp: "ConvBNReLU_forward W' m (conv_post ?H) = ConvBNReLU_forward W m (conv_post ?H)"
    and p0: "ConvBNReLU_forward W' m (project0 ?H) = ConvBNReLU_forward W m (project0 ?H)"
    and p2: "Conv2d_forward W' m (project2 ?H) = Conv2d_forward W m (project2 ?H)"
    by (rule ext, simp add: ConvBNReLU_forward_def Conv2d_forward_def PSAHead_init_simps w)+
  show ?thesis
    by (simp add: PSAHead_forward_def PSAHead_project_def PointwiseSpatialAttention_forward_def
        PSAHead_init_simps(1) PointwiseSpatialAttention_init_simps ca da cp p0 p2)
qed

lemma base_forward_cong:
  "W' pre = W pre \<Longrightarrow> W' (Suc pre) = W (Suc pre) \<Longrightarrow>
     base_forward W' m pre x = base_forward W m pre x"
  by (simp add: base_forward_def split: list.splits)

lemma PSANet_forward_cong:
  assumes init: "PSANet_init ncls backbone False k = Inr (net, kB)"
    and w: "\<forall>s<kB. W' s = W s"
  shows "PSANet_forward W' m keep net x = PSANet_forward W m keep net x"
proof -
  from PSANet_init_InrD [OF init] have
    hd: "head net = fst (PSAHead_init ncls (k + 2))" and ax: "\<not> aux net"
    and pre: "pretrained net = k" and kB: "kB = k + 11"
    by simp_all
  have b: "base_forward W' m (pretrained net) = base_forward W m (pretrained net)"
    by (rule ext, rule base_forward_cong) (use w in \<open>simp_all add: pre kB\<close>)
  have h: "PSAHead_forward W' m keep (head net) = PSAHead_forward W m keep (head net)"
    unfolding hd by (rule ext, rule PSAHead_forward_cong) (use w in \<open>simp add: kB\<close>)
  show ?thesis by (simp add: PSANet_forward_def b h ax)
qed

lemma PSANet_forward_eval:
  assumes "base_forward W m (pretrained net) x = Inr (c3, c4)"
    "PSAHead_forward W m keep (head net) c4 = Inr y"
    "interpolate_bilinear y (drop 2 (shape x)) = Inr p"
  shows "aux net \<Longrightarrow> auxlayer net = Some al \<Longrightarrow> FCNHead_forward W m al c3 = Inr a \<Longrightarrow>
           interpolate_bilinear a (drop 2 (shape x)) = Inr q \<Longrightarrow>
           PSANet_forward W m keep net x = Inr (Tuple [p, q])"
    and "\<not> aux net \<Longrightarrow> PSANet_forward W m keep net x = Inr (Tensor p)"
  using assms by (simp_all add: PSANet_forward_def Let_def)


text \<open>
  C9. In inference mode \<open>PSANet.forward\<close> is deterministic: with the same weights and the
  same input, the result does not depend on the random mask that \<open>nn.Dropout2d\<close> would draw
  (the only source of randomness in the file), so two passes give identical results.
\<close>

theorem inference_is_deterministic:
  "PSANet_forward W Inference keep1 net x = PSANet_forward W Inference keep2 net x"
  by (simp add: PSANet_forward_def PSAHead_forward_def PSAHead_project_def Dropout2d_def)

lemma dropout_training_uses_mask:
  "Dropout2d (1 / 10) Training (\<lambda>i. True) \<lparr>shape = [1, 1, 1, 1], storage = (\<lambda>off. 1)\<rparr>
     \<noteq> Dropout2d (1 / 10) Training (\<lambda>i. False) \<lparr>shape = [1, 1, 1, 1], storage = (\<lambda>off. 1)\<rparr>"
  by (simp add: Dropout2d_def fun_eq_iff)

text \<open>
  C8. Build one PSANet with the auxiliary flag on and one with it off. The shared layers
  (backbone and head) get the same parameter slots, and for any input, mode and dropout
  mask, and any two parameter stores that agree on the shared layers' slots: the model
  without the flag returns the single tensor \<open>p\<close> exactly when the model with the flag
  returns a pair whose first component is \<open>p\<close>. The flag changes only whether the result is
  a tensor or a pair.
\<close>

theorem aux_flag_keeps_primary:
  assumes A: "PSANet_init ncls backbone True k = Inr (netA, kA)"
    and B: "PSANet_init ncls backbone False k = Inr (netB, kB)"
    and w: "\<forall>s<kB. W' s = W s"
  shows "head netA = head netB \<and> pretrained netA = pretrained netB \<and>
     (\<forall>p. PSANet_forward W' m keep netB x = Inr (Tensor p) \<longleftrightarrow>
          (\<exists>a. PSANet_forward W m keep netA x = Inr (Tuple [p, a]))) \<and>
     (\<forall>r. PSANet_forward W' m keep netB x = Inr r \<longrightarrow> (\<exists>p. r = Tensor p)) \<and>
     (\<forall>r. PSANet_forward W m keep netA x = Inr r \<longrightarrow> (\<exists>p a. r = Tuple [p, a]))"
proof -
  from PSANet_init_InrD [OF A] have
    hdA: "head netA = fst (PSAHead_init ncls (k + 2))" and axA: "aux netA"
    and preA: "pretrained netA = k"
    and alA: "auxlayer netA = Some \<lparr>fcn_in_channels = 1024, fcn_channels = ncls, fcn_slot = k + 11\<rparr>"
    by simp_all
  from PSANet_init_InrD [OF B] have
    hdB: "head netB = fst (PSAHead_init ncls (k + 2))" and axB: "\<not> aux netB"
    and preB: "pretrained netB = k"
    by simp_all
  have same: "head netA = head netB" "pretrained netA = pretrained netB"
    by (simp_all add: hdA hdB preA preB)
  have cong: "PSANet_forward W' m keep netB x = PSANet_forward W m keep netB x"
    using B w by (rule PSANet_forward_cong)
  have BA: "\<exists>a. PSANet_forward W m keep netA x = Inr (Tuple [p, a])"
    if r: "PSANet_forward W m keep netB x = Inr (Tensor p)" for p
  proof -
    from PSANet_forward_InrD [OF B r] obtain n h w c3 c4 y p' where
      x: "shape x = [n, 3, h, w]"
      and base: "base_forward W m (pretrained netB) x = Inr (c3, c4)"
      and shc3: "shape c3 = [n, 1024, h div backbone_stride, w div backbone_stride]"
      and y: "PSAHead_forward W m keep (head netB) c4 = Inr y"
      and shy: "shape y = [n, ncls, h div backbone_stride, w div backbone_stride]"
      and p': "interpolate_bilinear y [h, w] = Inr p'" and pp: "Tensor p = Tensor p'"
      by auto
    from pp have peq: "p' = p" by simp
    let ?al = "\<lparr>fcn_in_channels = 1024, fcn_channels = ncls, fcn_slot = k + 11\<rparr>"
    have "shape c3 = [n, fcn_in_channels ?al, h div backbone_stride, w div backbone_stride]"
      using shc3 by simp
    from FCNHead_forward_ok [OF this, of W m] obtain a where
      a: "FCNHead_forward W m ?al c3 = Inr a"
      and sha: "shape a = [n, ncls, h div backbone_stride, w div backbone_stride]" by auto
    from interpolate_bilinear_InrD [OF p' shy] have
      pos: "0 < ncls" "0 < h div backbone_stride" "0 < w div backbone_stride" "0 < h" "0 < w"
      by simp_all
    from interpolate_bilinear_ok [OF sha pos] obtain q where
      q: "interpolate_bilinear a [h, w] = Inr q" by blast
    have sz: "drop 2 (shape x) = [h, w]" by (simp add: x)
    have baseA: "base_forward W m (pretrained netA) x = Inr (c3, c4)"
      and yA: "PSAHead_forward W m keep (head netA) c4 = Inr y"
      and pA: "interpolate_bilinear y (drop 2 (shape x)) = Inr p"
      and qA: "interpolate_bilinear a (drop 2 (shape x)) = Inr q"
      using base y p' q by (simp_all add: same sz peq)
    have "PSANet_forward W m keep netA x = Inr (Tuple [p, q])"
      using baseA yA pA axA alA a qA by (rule PSANet_forward_eval(1))
    then show ?thesis by blast
  qed
  have AB: "PSANet_forward W m keep netB x = Inr (Tensor p)"
    if r: "PSANet_forward W m keep netA x = Inr (Tuple [p, a])" for p a
  proof -
    from PSANet_forward_InrD [OF A r] obtain n h w c3 c4 y p' q where
      x: "shape x = [n, 3, h, w]"
      and base: "base_forward W m (pretrained netA) x = Inr (c3, c4)"
      and y: "PSAHead_forward W m keep (head netA) c4 = Inr y"
      and p': "interpolate_bilinear y [h, w] = Inr p'" and pp: "Tuple [p, a] = Tuple [p', q]"
      by auto
    from pp have peq: "p' = p" by simp
    have sz: "drop 2 (shape x) = [h, w]" by (simp add: x)
    have baseB: "base_forward W m (pretrained netB) x = Inr (c3, c4)"
      and yB: "PSAHead_forward W m keep (head netB) c4 = Inr y"
      and pB: "interpolate_bilinear y (drop 2 (shape x)) = Inr p"
      using base y p' by (simp_all add: same [symmetric] sz peq)
    show ?thesis
      using baseB yB pB axB by (rule PSANet_forward_eval(2))
  qed
  have RB: "\<exists>p. r = Tensor p" if r: "PSANet_forward W' m keep netB x = Inr r" for r
    using PSANet_forward_InrD [OF B r] by auto
  have RA: "\<exists>p a. r = Tuple [p, a]" if r: "PSANet_forward W m keep netA x = Inr r" for r
    using PSANet_forward_InrD [OF A r] by auto
  show ?thesis
  proof (intro conjI allI impI iffI)
    show "head netA = head netB" by (rule same)
    show "pretrained netA = pretrained netB" by (rule same)
  next
    fix p assume "PSANet_forward W' m keep netB x = Inr (Tensor p)"
    then have "PSANet_forward W m keep netB x = Inr (Tensor p)" by (simp only: cong)
    then show "\<exists>a. PSANet_forward W m keep netA x = Inr (Tuple [p, a])" by (rule BA)
  next
    fix p assume "\<exists>a. PSANet_forward W m keep netA x = Inr (Tuple [p, a])"
    then obtain a where "PSANet_forward W m keep netA x = Inr (Tuple [p, a])" by (elim exE)
    then have "PSANet_forward W m keep netB x = Inr (Tensor p)" by (rule AB)
    then show "PSANet_forward W' m keep netB x = Inr (Tensor p)" by (simp only: cong)
  next
    fix r assume "PSANet_forward W' m keep netB x = Inr r"
    then show "\<exists>p. r = Tensor p" by (rule RB)
  next
    fix r assume "PSANet_forward W m keep netA x = Inr r"
    then show "\<exists>p a. r = Tuple [p, a]" by (rule RA)
  qed
qed

theorem aux_flag_keeps_primary_witness:
  "\<exists>netA kA netB kB p a.
     PSANet_init 1 ''resnet50'' True 0 = Inr (netA, kA) \<and>
     PSANet_init 1 ''resnet50'' False 0 = Inr (netB, kB) \<and>
     PSANet_forward (\<lambda>s. if s < 11 then zero_weights s else (\<lambda>m x off. 1)) Training keep_all netB
        (zeros [1, 3, 480, 480]) = Inr (Tensor p) \<and>
     PSANet_forward zero_weights Training keep_all netA (zeros [1, 3, 480, 480]) = Inr (Tuple [p, a])"
proof -
  let ?x = "zeros [1, 3, 480, 480]"
  let ?W' = "\<lambda>s. if s < 11 then zero_weights s else (\<lambda>m x off. 1)"
  have "\<exists>net k'. PSANet_init 1 ''resnet50'' True 0 = Inr (net, k')"
    by (rule PSANet_init_ok) simp
  then obtain netA kA where A: "PSANet_init 1 ''resnet50'' True 0 = Inr (netA, kA)"
    by (elim exE)
  have "\<exists>net k'. PSANet_init 1 ''resnet50'' False 0 = Inr (net, k')"
    by (rule PSANet_init_ok) simp
  then obtain netB kB where B: "PSANet_init 1 ''resnet50'' False 0 = Inr (netB, kB)"
    by (elim exE)
  from PSANet_init_InrD [OF B] have kB: "kB = 11" by simp
  have w: "\<forall>s<kB. ?W' s = zero_weights s" by (simp add: kB)
  have sx: "shape ?x = [1, 3, 480, 480]" by (rule shape_zeros)
  have hw: "(480 div backbone_stride) * (480 div backbone_stride) = 3600"
    by (simp add: backbone_stride_def)
  from PSANet_forward_ok [OF A sx _ _ hw, of zero_weights Training keep_all]
  obtain r p where r: "PSANet_forward zero_weights Training keep_all netA ?x = Inr r"
    and t: "if True then (\<exists>q. r = Tuple [p, q] \<and> shape q = [1, 1, 480, 480]) else r = Tensor p"
    by auto
  from t obtain a where "r = Tuple [p, a]" by auto
  with r have ra: "\<exists>a. PSANet_forward zero_weights Training keep_all netA ?x = Inr (Tuple [p, a])"
    by blast
  note T = aux_flag_keeps_primary [OF A B w, of Training keep_all ?x]
  from T [THEN conjunct2, THEN conjunct2, THEN conjunct1, THEN spec, THEN iffD2, OF ra]
  have b: "PSANet_forward ?W' Training keep_all netB ?x = Inr (Tensor p)" .
  from ra obtain a where a: "PSANet_forward zero_weights Training keep_all netA ?x = Inr (Tuple [p, a])"
    by (elim exE)
  from A B b a show ?thesis by (intro exI conjI)
qed

lemma get_psanet_Inr:
  assumes "PSANet_init ncls backbone ax 0 = Inr (net, k')"
  shows "model_call (get_psanet ncls backbone ax) W m keep x = PSANet_forward W m keep net x"
  by (simp add: model_call_def get_psanet_def assms)

text \<open>
  C1, amended. For every input of shape (N, 3, H, W) with N > 0, H and W multiples of the
  backbone's stride and (H / stride) * (W / stride) = 3600, and with nclass > 0, a model
  built by \<open>get_psanet\<close> with one of the three backbones returns a primary output of shape
  (N, nclass, H, W).
\<close>

theorem psanet_output_shape:
  assumes "backbone = ''resnet50'' \<or> backbone = ''resnet101'' \<or> backbone = ''resnet152''"
    and "shape x = [n, 3, h, w]" and "0 < n" and "0 < ncls"
    and "backbone_stride dvd h" and "backbone_stride dvd w"
    and "(h div backbone_stride) * (w div backbone_stride) = 3600"
  shows "\<exists>r p. model_call (get_psanet ncls backbone ax) W m keep x = Inr r \<and>
           primary r = Some p \<and> shape p = [n, ncls, h, w]"
proof -
  from PSANet_init_ok [OF assms(1), of ncls ax 0] obtain net k' where
    init: "PSANet_init ncls backbone ax 0 = Inr (net, k')" by blast
  from PSANet_forward_ok [OF init assms(2,3,4,7), of W m keep]
  show ?thesis unfolding get_psanet_Inr [OF init] by blast
qed

theorem psanet_output_shape_counterexample:
  "model_call (get_psanet 1 ''resnet50'' False) zero_weights Inference keep_all
      (zeros [1, 3, 256, 256])
     = Inl (BmmShapeMismatch [1, 512, 1024] [1, 3600, 1024])"
proof -
  let ?x = "zeros [1, 3, 256, 256]"
  from PSANet_init_ok [of "''resnet50''" 1 False 0] obtain net k' where
    init: "PSANet_init 1 ''resnet50'' False 0 = Inr (net, k')" by auto
  from PSANet_init_InrD [OF init] have
    hd: "head net = fst (PSAHead_init 1 2)" by (simp add: numeral_2_eq_2)
  let ?c3 = "\<lparr>shape = [1, 1024, 256 div backbone_stride, 256 div backbone_stride],
              storage = zero_weights (pretrained net) Inference ?x\<rparr>"
  let ?c4 = "\<lparr>shape = [1, 2048, 256 div backbone_stride, 256 div backbone_stride],
              storage = zero_weights (Suc (pretrained net)) Inference ?x\<rparr>"
  have base: "base_forward zero_weights Inference (pretrained net) ?x = Inr (?c3, ?c4)"
    by (simp add: base_forward_rank4 [OF shape_zeros])
  have "AttentionGeneration_forward zero_weights Inference
          (fst (AttentionGeneration_init 2048 512 3600 2)) ?c4
        = Inl (BmmShapeMismatch [1, 512, 32 * 32] [1, 3600, 32 * 32])"
    by (rule AttentionGeneration_forward_mismatch) (simp_all add: backbone_stride_def)
  then have "PSAHead_forward zero_weights Inference keep_all (head net) ?c4
        = Inl (BmmShapeMismatch [1, 512, 1024] [1, 3600, 1024])"
    by (simp add: hd PSAHead_forward_def PSAHead_init_simps(1)
        PointwiseSpatialAttention_forward_def PointwiseSpatialAttention_init_simps)
  then have "PSANet_forward zero_weights Inference keep_all net ?x
        = Inl (BmmShapeMismatch [1, 512, 1024] [1, 3600, 1024])"
    by (simp only: PSANet_forward_def Let_def base bindE_simps prod.case)
  then show ?thesis by (simp only: get_psanet_Inr [OF init])
qed

theorem psanet_output_shape_witness:
  "\<exists>r p. model_call (get_psanet 21 ''resnet152'' True) zero_weights Inference keep_all
            (zeros [2, 3, 240, 960]) = Inr r \<and>
         primary r = Some p \<and> shape p = [2, 21, 240, 960]"
  by (rule psanet_output_shape) (simp_all add: shape_zeros backbone_stride_def)

text \<open>
  C10. For an input of shape (1, 3, 480, 480) and a model built by \<open>get_psanet_resnet50\<close>
  (with nclass > 0), in either mode and with or without the auxiliary flag, \<open>forward\<close>
  returns, and its primary output has shape (1, nclass, 480, 480).
\<close>

theorem main_scenario_shape:
  assumes "shape x = [1, 3, 480, 480]" and "0 < ncls"
  shows "\<exists>r p. model_call (get_psanet_resnet50 ncls ax) W m keep x = Inr r \<and>
           primary r = Some p \<and> shape p = [1, ncls, 480, 480]"
proof -
  from PSANet_init_ok [of "''resnet50''" ncls ax 0] obtain net k' where
    init: "PSANet_init ncls ''resnet50'' ax 0 = Inr (net, k')" by auto
  have hw: "(480 div backbone_stride) * (480 div backbone_stride) = 3600"
    by (simp add: backbone_stride_def)
  have one: "(0::nat) < 1" by simp
  from PSANet_forward_ok [OF init assms(1) one assms(2) hw, of W m keep]
  show ?thesis unfolding get_psanet_resnet50_def get_psanet_Inr [OF init] by blast
qed

theorem main_scenario_shape_witness:
  "\<exists>r p. model_call (get_psanet_resnet50 1 False) zero_weights Training keep_all
            (zeros [1, 3, 480, 480]) = Inr r \<and>
         primary r = Some p \<and> shape p = [1, 1, 480, 480]"
  by (rule main_scenario_shape) (simp_all add: shape_zeros)

end
